theory Spec2Isabelle
  imports Main
begin

section \<open>SyncManager: the pairing and deploy state machine\<close>

text \<open>
  A shallow embedding of the class \<^verbatim>\<open>SyncManager\<close> of \<^verbatim>\<open>src/SyncManager.js\<close>.

  The class is asynchronous and talks to three collaborators (an HTTP service, the file
  system and a child process) and to the listeners registered on its event emitter.
  The embedding makes all of them explicit:
  \<^item> the object is a record of its five fields, extended by four observation fields:
    the notifications emitted so far, the external calls issued so far, the number
    of suspension points (\<^verbatim>\<open>await\<close>) passed so far, and the assignments made to
    the field \<^verbatim>\<open>state\<close> so far;
  \<^item> the collaborators are an environment of oracles: what a request issued at a given
    suspension point resolves to, whether \<^verbatim>\<open>stop()\<close> is called by the owner while that
    suspension is in flight, and whether the listeners of a notification throw;
  \<^item> an \<^verbatim>\<open>async\<close> method is a function from the object to an outcome and the updated
    object; the outcome is a normal return, a thrown exception (a rejected promise), or
    an exception raised inside a child-process callback, which no handler of the class
    can catch and after which the awaiting method never resumes;
  \<^item> every awaited operation is taken to settle; numbers are integers.
\<close>

subsection \<open>Data model\<close>

datatype SyncState = Idle | Searching | Connected | Listening | Deploying | Error

record SyncConfig =
  maxRetries :: int
  retryIntervalMs :: int
  connectionTimeoutMs :: int
  internalCode :: int
  pingUrl :: string
  botsFilesUrls :: "string list"
  botsExecCommand :: string
  deployPath :: string

text \<open>\<^verbatim>\<open>Partial<SyncConfig>\<close>: every field may be absent.\<close>

record PartialSyncConfig =
  opt_maxRetries :: "int option"
  opt_retryIntervalMs :: "int option"
  opt_connectionTimeoutMs :: "int option"
  opt_internalCode :: "int option"
  opt_pingUrl :: "string option"
  opt_botsFilesUrls :: "string list option"
  opt_botsExecCommand :: "string option"
  opt_deployPath :: "string option"

record SyncManagerOptions =
  botId :: string
  teraboxBaseUrl :: string
  opt_config :: "PartialSyncConfig option"

text \<open>A thrown value: an \<^verbatim>\<open>Error\<close> object, identified by its message.\<close>

datatype JsError = JsError string

text \<open>A value produced by \<^verbatim>\<open>response.json()\<close>. An object is the list of its properties.\<close>

datatype JsValue =
    JNull
  | JBool bool
  | JNum int
  | JStr string
  | JArr "JsValue list"
  | JObj "(string \<times> JsValue) list"

text \<open>
  Property access \<^verbatim>\<open>v.name\<close> for the three names the class reads (\<^verbatim>\<open>internalCode\<close>,
  \<^verbatim>\<open>botId\<close>, \<^verbatim>\<open>deploy\<close>); \<open>None\<close> is \<^verbatim>\<open>undefined\<close>. Only an object has such a
  property. (On \<^verbatim>\<open>null\<close> the access would throw; both places that read a property
  test for \<^verbatim>\<open>null\<close> first.)
\<close>

fun getProp :: "JsValue \<Rightarrow> string \<Rightarrow> JsValue option" where
  "getProp (JObj kvs) name = map_of kvs name"
| "getProp _ name = None"

fun typeof :: "JsValue option \<Rightarrow> string" where
  "typeof None = ''undefined''"
| "typeof (Some JNull) = ''object''"
| "typeof (Some (JBool b)) = ''boolean''"
| "typeof (Some (JNum n)) = ''number''"
| "typeof (Some (JStr s)) = ''string''"
| "typeof (Some (JArr vs)) = ''object''"
| "typeof (Some (JObj kvs)) = ''object''"

fun truthy :: "JsValue \<Rightarrow> bool" where
  "truthy JNull = False"
| "truthy (JBool b) = b"
| "truthy (JNum n) = (n \<noteq> 0)"
| "truthy (JStr s) = (s \<noteq> [])"
| "truthy (JArr vs) = True"
| "truthy (JObj kvs) = True"

definition isSyncData :: "JsValue \<Rightarrow> bool" where
  "isSyncData obj =
     (obj \<noteq> JNull \<and>
      typeof (Some obj) = ''object'' \<and>
      typeof (getProp obj ''internalCode'') = ''number'' \<and>
      typeof (getProp obj ''botId'') = ''string'')"

text \<open>The string held by a property known to be a string (\<^verbatim>\<open>data.botId\<close>).\<close>

fun stringOf :: "JsValue option \<Rightarrow> string" where
  "stringOf (Some (JStr s)) = s"
| "stringOf _ = []"

record HttpResponse =
  ok :: bool
  json_body :: "JsError + JsValue"
  text_body :: "JsError + string"

text \<open>The external calls the class issues.\<close>

datatype call =
    Fetch string string "(string \<times> string) list" "JsValue option"
  | Mkdir string
  | WriteFile string string
  | Exec string string
  | Sleep int

datatype event =
    EvStateChange SyncState
  | EvAttempt int
  | EvRetrying int
  | EvGemeloFound string
  | EvConnected
  | EvListening
  | EvWaitingDeploySignal
  | EvDeploySignalReceived
  | EvDeploySignalTimeout
  | EvDeployStart
  | EvDownloadStart string
  | EvDownloadComplete string
  | EvDeployFilesWritten
  | EvExecStart string
  | EvExecError JsError string
  | EvExecSuccess string
  | EvDeploySuccess
  | EvWokeGemelo
  | EvError JsError

record SyncManager =
  state :: SyncState
  retries :: int
  config :: SyncConfig
  options :: SyncManagerOptions
  isStopped :: bool
  events :: "event list"
  calls :: "call list"
  tick :: nat
  writes :: "(nat \<times> SyncState) list"

text \<open>
  The environment. \<open>listener env ev = Some e\<close>: a listener of \<open>ev\<close> throws \<open>e\<close> (this is
  also what Node's emitter does for \<^verbatim>\<open>error\<close> when no listener is registered).
  \<open>stops env t\<close>: the owner calls \<^verbatim>\<open>stop()\<close> while suspension number \<open>t\<close> is in flight.
  The replies are indexed by the suspension at which the call is issued.
  \<open>exec_reply\<close> gives the arguments of the callback of \<^verbatim>\<open>child_process.exec\<close>:
  error, stdout, stderr. \<open>basename\<close> and \<open>resolve\<close> are those of Node's \<^verbatim>\<open>path\<close>.
\<close>

record env =
  listener :: "event \<Rightarrow> JsError option"
  stops :: "nat \<Rightarrow> bool"
  fetch_reply :: "nat \<Rightarrow> call \<Rightarrow> JsError + HttpResponse"
  fs_reply :: "nat \<Rightarrow> call \<Rightarrow> JsError option"
  exec_reply :: "nat \<Rightarrow> call \<Rightarrow> JsError option \<times> string \<times> string"
  basename :: "string \<Rightarrow> string"
  resolve :: "string \<Rightarrow> string \<Rightarrow> string"

subsection \<open>Control flow\<close>

datatype 'a outcome = Normal 'a | Throws JsError | Uncaught JsError

type_synonym 'a prog = "SyncManager \<Rightarrow> 'a outcome \<times> SyncManager"

definition ret :: "'a \<Rightarrow> 'a prog" where
  "ret v s = (Normal v, s)"

definition throw :: "JsError \<Rightarrow> 'a prog" where
  "throw e s = (Throws e, s)"

definition bind :: "'a prog \<Rightarrow> ('a \<Rightarrow> 'b prog) \<Rightarrow> 'b prog" where
  "bind m f s =
     (case m s of
        (Normal v, s') \<Rightarrow> f v s'
      | (Throws e, s') \<Rightarrow> (Throws e, s')
      | (Uncaught e, s') \<Rightarrow> (Uncaught e, s'))"

definition tryCatch :: "'a prog \<Rightarrow> (JsError \<Rightarrow> 'a prog) \<Rightarrow> 'a prog" where
  "tryCatch m h s =
     (case m s of
        (Normal v, s') \<Rightarrow> (Normal v, s')
      | (Throws e, s') \<Rightarrow> h e s'
      | (Uncaught e, s') \<Rightarrow> (Uncaught e, s'))"

text \<open>A sequence of statements.\<close>

primrec block :: "unit prog list \<Rightarrow> unit prog" where
  "block [] = ret ()"
| "block (m # ms) = bind m (\<lambda>_. block ms)"

definition modify :: "(SyncManager \<Rightarrow> SyncManager) \<Rightarrow> unit prog" where
  "modify f s = (Normal (), f s)"

text \<open>
  The assignment \<^verbatim>\<open>this.state = x\<close>. It is logged with the number of notifications
  emitted before it.
\<close>

definition assign :: "SyncState \<Rightarrow> unit prog" where
  "assign x =
     modify (\<lambda>s. s\<lparr>state := x, writes := writes s @ [(length (events s), x)]\<rparr>)"

text \<open>A statement that reads fields of \<^verbatim>\<open>this\<close>.\<close>

definition reading :: "(SyncManager \<Rightarrow> 'a prog) \<Rightarrow> 'a prog" where
  "reading f s = f s s"

text \<open>The three results of one pass through a loop body.\<close>

datatype ctl = Continue | Break | Return

subsection \<open>Primitives\<close>

text \<open>\<^verbatim>\<open>this.emit(...)\<close>: the listeners run synchronously and may throw into the emitter.\<close>

definition emit :: "env \<Rightarrow> event \<Rightarrow> unit prog" where
  "emit env ev s =
     (let s' = s\<lparr>events := events s @ [ev]\<rparr>
      in case listener env ev of None \<Rightarrow> (Normal (), s') | Some e \<Rightarrow> (Throws e, s'))"

definition stop :: "env \<Rightarrow> unit prog" where
  "stop env =
     block [
       modify (\<lambda>s. s\<lparr>isStopped := True\<rparr>),
       assign Idle,
       reading (\<lambda>s. emit env (EvStateChange (state s)))]"

text \<open>
  One suspension point. If the owner calls \<^verbatim>\<open>stop()\<close> meanwhile, its effects are there
  when the method resumes; an exception of a listener of that call goes to the owner,
  not to the suspended method.
\<close>

definition suspend :: "env \<Rightarrow> SyncManager \<Rightarrow> SyncManager" where
  "suspend env s =
     (let s' = (if stops env (tick s) then snd (stop env s) else s)
      in s'\<lparr>tick := Suc (tick s')\<rparr>)"

definition fetch :: "env \<Rightarrow> call \<Rightarrow> HttpResponse prog" where
  "fetch env c s =
     (let s1 = s\<lparr>calls := calls s @ [c]\<rparr>;
          r = fetch_reply env (tick s1) c;
          s2 = suspend env s1
      in case r of Inl e \<Rightarrow> (Throws e, s2) | Inr response \<Rightarrow> (Normal response, s2))"

definition json :: "env \<Rightarrow> HttpResponse \<Rightarrow> JsValue prog" where
  "json env response s =
     (let s2 = suspend env s
      in case json_body response of Inl e \<Rightarrow> (Throws e, s2) | Inr v \<Rightarrow> (Normal v, s2))"

definition readText :: "env \<Rightarrow> HttpResponse \<Rightarrow> string prog" where
  "readText env response s =
     (let s2 = suspend env s
      in case text_body response of Inl e \<Rightarrow> (Throws e, s2) | Inr v \<Rightarrow> (Normal v, s2))"

definition fsCall :: "env \<Rightarrow> call \<Rightarrow> unit prog" where
  "fsCall env c s =
     (let s1 = s\<lparr>calls := calls s @ [c]\<rparr>;
          r = fs_reply env (tick s1) c;
          s2 = suspend env s1
      in case r of Some e \<Rightarrow> (Throws e, s2) | None \<Rightarrow> (Normal (), s2))"

definition sleep :: "env \<Rightarrow> int \<Rightarrow> unit prog" where
  "sleep env ms s = (Normal (), suspend env (s\<lparr>calls := calls s @ [Sleep ms]\<rparr>))"

text \<open>The child process runs; its callback receives error, stdout and stderr.\<close>

definition awaitExec :: "env \<Rightarrow> call \<Rightarrow> (JsError option \<times> string \<times> string) prog" where
  "awaitExec env c s =
     (let s1 = s\<lparr>calls := calls s @ [c]\<rparr>;
          r = exec_reply env (tick s1) c
      in (Normal r, suspend env s1))"

text \<open>
  A notification emitted inside the callback of \<^verbatim>\<open>exec\<close>: an exception of a listener
  leaves the callback before the promise is settled.
\<close>

definition inCallback :: "unit prog \<Rightarrow> unit prog" where
  "inCallback m s =
     (case m s of
        (Normal v, s') \<Rightarrow> (Normal v, s')
      | (Throws e, s') \<Rightarrow> (Uncaught e, s')
      | (Uncaught e, s') \<Rightarrow> (Uncaught e, s'))"

subsection \<open>The methods\<close>

definition setError :: "env \<Rightarrow> JsError \<Rightarrow> unit prog" where
  "setError env error =
     block [
       assign Error,
       reading (\<lambda>s. emit env (EvStateChange (state s))),
       emit env (EvError error)]"

definition execCommand :: "env \<Rightarrow> string \<Rightarrow> string \<Rightarrow> unit prog" where
  "execCommand env cmd cwd =
     bind (emit env (EvExecStart cmd)) (\<lambda>_.
     bind (awaitExec env (Exec cmd cwd)) (\<lambda>r.
       case r of
         (Some error, stdout, stderr) \<Rightarrow>
           bind (inCallback (emit env (EvExecError error stderr))) (\<lambda>_. throw error)
       | (None, stdout, stderr) \<Rightarrow>
           inCallback (emit env (EvExecSuccess stdout))))"

definition downloadFile :: "env \<Rightarrow> string \<Rightarrow> unit prog" where
  "downloadFile env fileUrl =
     bind (emit env (EvDownloadStart fileUrl)) (\<lambda>_.
     bind (fetch env (Fetch ''GET'' fileUrl [] None)) (\<lambda>res.
       if \<not> ok res then throw (JsError (''No se pudo descargar archivo: '' @ fileUrl))
       else reading (\<lambda>s.
         let filename = basename env fileUrl;
             fullPath = resolve env (deployPath (config s)) filename
         in bind (readText env res) (\<lambda>fileData.
              block [
                fsCall env (WriteFile fullPath fileData),
                emit env (EvDownloadComplete filename)]))))"

text \<open>The \<^verbatim>\<open>for\<close> loop of \<^verbatim>\<open>deployBots\<close> over the configured URLs.\<close>

primrec downloadFiles :: "env \<Rightarrow> string list \<Rightarrow> unit prog" where
  "downloadFiles env [] = ret ()"
| "downloadFiles env (fileUrl # rest) =
     bind (downloadFile env fileUrl) (\<lambda>_. downloadFiles env rest)"

definition deployBots :: "env \<Rightarrow> unit prog" where
  "deployBots env =
     tryCatch
       (block [
          emit env EvDeployStart,
          reading (\<lambda>s. fsCall env (Mkdir (deployPath (config s)))),
          reading (\<lambda>s. downloadFiles env (botsFilesUrls (config s))),
          emit env EvDeployFilesWritten,
          reading (\<lambda>s. execCommand env (botsExecCommand (config s)) (deployPath (config s))),
          emit env EvDeploySuccess])
       (\<lambda>error. setError env error)"

definition tryConnectToGemelo :: "env \<Rightarrow> bool prog" where
  "tryConnectToGemelo env =
     tryCatch
       (bind (reading (\<lambda>s. fetch env (Fetch ''GET'' (pingUrl (config s)) [] None)))
          (\<lambda>response.
          if \<not> ok response then ret False
          else bind (json env response) (\<lambda>data. reading (\<lambda>s.
            if isSyncData data \<and>
               getProp data ''internalCode'' = Some (JNum (internalCode (config s))) \<and>
               getProp data ''botId'' \<noteq> Some (JStr (botId (options s)))
            then bind (emit env (EvGemeloFound (stringOf (getProp data ''botId''))))
                   (\<lambda>_. ret True)
            else ret False))))
       (\<lambda>_. ret False)"

text \<open>One pass through the body of the polling loop of \<^verbatim>\<open>waitForDeploySignal\<close>.\<close>

definition signalPoll :: "env \<Rightarrow> ctl prog" where
  "signalPoll env =
     bind
       (tryCatch
          (bind (reading (\<lambda>s. fetch env
                   (Fetch ''GET'' (teraboxBaseUrl (options s) @ ''/sync/deploySignal'')
                      [(''Content-Type'', ''application/json'')] None))) (\<lambda>signalResponse.
             if ok signalResponse then
               bind (json env signalResponse) (\<lambda>body.
                 if truthy body \<and> getProp body ''deploy'' = Some (JBool True) then
                   bind (block [emit env EvDeploySignalReceived, deployBots env])
                     (\<lambda>_. ret Return)
                 else ret Continue)
             else ret Continue))
          (\<lambda>error. bind (emit env (EvError error)) (\<lambda>_. ret Continue)))
       (\<lambda>c. if c = Return then ret Return
            else bind (reading (\<lambda>s. sleep env (retryIntervalMs (config s))))
                   (\<lambda>_. ret Continue))"

definition maxPolls :: nat where
  "maxPolls = 30"

text \<open>The message of the time-out error; its 21st character is n with tilde (U+00F1).\<close>

definition timeoutMessage :: string where
  "timeoutMessage = ''Timeout esperando se'' @ [CHR 0xF1] @ ''al de deploy''"

function waitForDeploySignal_loop :: "env \<Rightarrow> nat \<Rightarrow> unit prog" where
  "waitForDeploySignal_loop env polls s =
     (if \<not> isStopped s \<and> polls < maxPolls then
        (case signalPoll env s of
           (Normal Continue, s') \<Rightarrow> waitForDeploySignal_loop env (polls + 1) s'
         | (Normal Break, s') \<Rightarrow> (Normal (), s')
         | (Normal Return, s') \<Rightarrow> (Normal (), s')
         | (Throws e, s') \<Rightarrow> (Throws e, s')
         | (Uncaught e, s') \<Rightarrow> (Uncaught e, s'))
      else
        block [
          emit env EvDeploySignalTimeout,
          setError env (JsError timeoutMessage)] s)"
  by pat_completeness auto
termination
  by (relation "measure (\<lambda>(env, polls, s). maxPolls - polls)") auto

declare waitForDeploySignal_loop.simps [simp del]

definition waitForDeploySignal :: "env \<Rightarrow> unit prog" where
  "waitForDeploySignal env =
     block [
       emit env EvWaitingDeploySignal,
       assign Deploying,
       reading (\<lambda>s. emit env (EvStateChange (state s))),
       waitForDeploySignal_loop env 0]"

text \<open>The \<^verbatim>\<open>catch\<close> block of the loop of \<^verbatim>\<open>attemptConnectionLoop\<close>.\<close>

definition attemptConnectionLoop_catch :: "env \<Rightarrow> JsError \<Rightarrow> ctl prog" where
  "attemptConnectionLoop_catch env error =
     bind (block [
             setError env error,
             modify (\<lambda>s. s\<lparr>retries := retries s + 1\<rparr>)]) (\<lambda>_.
     reading (\<lambda>s.
       if retries s \<ge> maxRetries (config s) then ret Break
       else bind (sleep env (retryIntervalMs (config s))) (\<lambda>_. ret Continue)))"

text \<open>The \<^verbatim>\<open>try\<close> block of the loop of \<^verbatim>\<open>attemptConnectionLoop\<close>.\<close>

definition attemptConnectionLoop_try :: "env \<Rightarrow> ctl prog" where
  "attemptConnectionLoop_try env =
     bind (tryConnectToGemelo env) (\<lambda>connected.
       if connected then
         bind (block [
                 assign Connected,
                 reading (\<lambda>s. emit env (EvStateChange (state s))),
                 emit env EvConnected,
                 waitForDeploySignal env]) (\<lambda>_.
         ret Return)
       else
         bind (block [
                 modify (\<lambda>s. s\<lparr>retries := retries s + 1\<rparr>),
                 reading (\<lambda>s. emit env (EvRetrying (retries s)))]) (\<lambda>_.
         reading (\<lambda>s.
           if retries s \<ge> maxRetries (config s) then ret Break
           else bind (sleep env (retryIntervalMs (config s))) (\<lambda>_. ret Continue))))"

text \<open>One pass through the body of the loop of \<^verbatim>\<open>attemptConnectionLoop\<close>.\<close>

definition attemptConnectionLoop_body :: "env \<Rightarrow> ctl prog" where
  "attemptConnectionLoop_body env =
     bind (reading (\<lambda>s. emit env (EvAttempt (retries s + 1)))) (\<lambda>_.
     tryCatch (attemptConnectionLoop_try env) (attemptConnectionLoop_catch env))"

text \<open>The statements of \<^verbatim>\<open>attemptConnectionLoop\<close> after its loop.\<close>

definition enterListening :: "env \<Rightarrow> unit prog" where
  "enterListening env =
     block [
       assign Listening,
       reading (\<lambda>s. emit env (EvStateChange (state s))),
       emit env EvListening]"

subsection \<open>Invariants of methods\<close>

text \<open>
  \<open>preserves I m\<close>: if \<open>I\<close> holds when \<open>m\<close> starts, it holds when \<open>m\<close> ends, however it
  ends. \<open>triple P m N E\<close> separates the normal from the exceptional end.
\<close>

definition preserves :: "(SyncManager \<Rightarrow> bool) \<Rightarrow> 'a prog \<Rightarrow> bool" where
  "preserves I m = (\<forall>s. I s \<longrightarrow> I (snd (m s)))"

definition triple ::
  "(SyncManager \<Rightarrow> bool) \<Rightarrow> 'a prog \<Rightarrow> ('a \<Rightarrow> SyncManager \<Rightarrow> bool) \<Rightarrow>
   (SyncManager \<Rightarrow> bool) \<Rightarrow> bool" where
  "triple P m N E =
     (\<forall>s. P s \<longrightarrow>
        (case m s of
           (Normal v, s') \<Rightarrow> N v s'
         | (Throws e, s') \<Rightarrow> E s'
         | (Uncaught e, s') \<Rightarrow> E s'))"

text \<open>
  An invariant that the bookkeeping of a suspension point keeps: logging a call,
  counting the suspension, and a \<^verbatim>\<open>stop()\<close> of the owner.
\<close>

definition ghostStable :: "env \<Rightarrow> (SyncManager \<Rightarrow> bool) \<Rightarrow> bool" where
  "ghostStable env I =
     ((\<forall>s c. I s \<longrightarrow> I (s\<lparr>calls := calls s @ [c]\<rparr>)) \<and>
      (\<forall>s. I s \<longrightarrow> I (s\<lparr>tick := Suc (tick s)\<rparr>)) \<and>
      preserves I (stop env))"

text \<open>The configuration, the options and the retry counter are as in \<open>s0\<close>.\<close>

definition unchanged :: "SyncManager \<Rightarrow> SyncManager \<Rightarrow> bool" where
  "unchanged s0 s =
     (config s = config s0 \<and> retries s = retries s0 \<and> options s = options s0)"

text \<open>The configuration is \<open>c\<close> and the retry counter is at least \<open>r\<close>.\<close>

definition budget :: "SyncConfig \<Rightarrow> int \<Rightarrow> SyncManager \<Rightarrow> bool" where
  "budget c r s = (config s = c \<and> r \<le> retries s)"

named_theorems pres \<open>rules that decompose a preservation goal\<close>

lemma preservesD: "preserves I m \<Longrightarrow> I s \<Longrightarrow> I (snd (m s))"
  by (simp add: preserves_def)

lemma preserves_ret [pres]: "preserves I (ret v)"
  by (simp add: preserves_def ret_def)

lemma preserves_throw [pres]: "preserves I (throw e)"
  by (simp add: preserves_def throw_def)

lemma preserves_modify [pres]: "(\<And>s. I s \<Longrightarrow> I (f s)) \<Longrightarrow> preserves I (modify f)"
  by (simp add: preserves_def modify_def)

lemma preserves_assign [pres]:
  "(\<And>s. I s \<Longrightarrow> I (s\<lparr>state := x, writes := writes s @ [(length (events s), x)]\<rparr>)) \<Longrightarrow>
   preserves I (assign x)"
  by (simp add: assign_def preserves_modify)

lemma preserves_bind [pres]:
  "preserves I m \<Longrightarrow> (\<And>v. preserves I (f v)) \<Longrightarrow> preserves I (bind m f)"
  by (auto simp: preserves_def bind_def split: prod.splits outcome.splits)

lemma preserves_tryCatch [pres]:
  "preserves I m \<Longrightarrow> (\<And>e. preserves I (h e)) \<Longrightarrow> preserves I (tryCatch m h)"
  by (auto simp: preserves_def tryCatch_def split: prod.splits outcome.splits)

lemma preserves_inCallback [pres]: "preserves I m \<Longrightarrow> preserves I (inCallback m)"
  by (auto simp: preserves_def inCallback_def split: prod.splits outcome.splits)

lemma preserves_block_Nil [pres]: "preserves I (block [])"
  by (simp add: preserves_ret)

lemma preserves_block_Cons [pres]:
  "preserves I m \<Longrightarrow> preserves I (block ms) \<Longrightarrow> preserves I (block (m # ms))"
  by (simp add: preserves_bind)

lemma preserves_reading [pres]: "(\<And>x. preserves I (f x)) \<Longrightarrow> preserves I (reading f)"
  by (simp add: preserves_def reading_def)

lemma preserves_if [pres]:
  "preserves I a \<Longrightarrow> preserves I b \<Longrightarrow> preserves I (if c then a else b)"
  by simp

lemma preserves_case_prod [pres]:
  "(\<And>a b. preserves I (f a b)) \<Longrightarrow> preserves I (case p of (a, b) \<Rightarrow> f a b)"
  by (cases p) simp

lemma preserves_case_option [pres]:
  "preserves I a \<Longrightarrow> (\<And>x. preserves I (f x)) \<Longrightarrow>
   preserves I (case x of None \<Rightarrow> a | Some y \<Rightarrow> f y)"
  by (cases x) simp_all

lemma preserves_emit [pres]:
  "(\<And>s. I s \<Longrightarrow> I (s\<lparr>events := events s @ [ev]\<rparr>)) \<Longrightarrow> preserves I (emit env ev)"
  by (simp add: preserves_def emit_def Let_def split: option.splits)

lemma ghostStable_suspend: "ghostStable env I \<Longrightarrow> I s \<Longrightarrow> I (suspend env s)"
  by (simp add: ghostStable_def suspend_def Let_def preserves_def)

lemma ghostStable_call: "ghostStable env I \<Longrightarrow> I s \<Longrightarrow> I (s\<lparr>calls := calls s @ [c]\<rparr>)"
  by (simp add: ghostStable_def)

lemma ghostStable_issue:
  "ghostStable env I \<Longrightarrow> I s \<Longrightarrow> I (suspend env (s\<lparr>calls := calls s @ [c]\<rparr>))"
  by (rule ghostStable_suspend, assumption, rule ghostStable_call)

lemma preserves_fetch [pres]:
  assumes "ghostStable env I"
  shows "preserves I (fetch env c)"
proof -
  have "I (snd (fetch env c s))" if "I s" for s
    using ghostStable_issue [OF assms that, of c]
    by (simp add: fetch_def Let_def split: sum.splits)
  then show ?thesis
    by (simp add: preserves_def)
qed

lemma preserves_json [pres]:
  assumes "ghostStable env I"
  shows "preserves I (json env r)"
proof -
  have "I (snd (json env r s))" if "I s" for s
    using ghostStable_suspend [OF assms that]
    by (simp add: json_def Let_def split: sum.splits)
  then show ?thesis
    by (simp add: preserves_def)
qed

lemma preserves_readText [pres]:
  assumes "ghostStable env I"
  shows "preserves I (readText env r)"
proof -
  have "I (snd (readText env r s))" if "I s" for s
    using ghostStable_suspend [OF assms that]
    by (simp add: readText_def Let_def split: sum.splits)
  then show ?thesis
    by (simp add: preserves_def)
qed

lemma preserves_fsCall [pres]:
  assumes "ghostStable env I"
  shows "preserves I (fsCall env c)"
proof -
  have "I (snd (fsCall env c s))" if "I s" for s
    using ghostStable_issue [OF assms that, of c]
    by (simp add: fsCall_def Let_def split: option.splits)
  then show ?thesis
    by (simp add: preserves_def)
qed

lemma preserves_sleep [pres]:
  assumes "ghostStable env I"
  shows "preserves I (sleep env ms)"
proof -
  have "I (snd (sleep env ms s))" if "I s" for s
    using ghostStable_issue [OF assms that, of "Sleep ms"]
    by (simp add: sleep_def)
  then show ?thesis
    by (simp add: preserves_def)
qed

lemma preserves_awaitExec [pres]:
  assumes "ghostStable env I"
  shows "preserves I (awaitExec env c)"
proof -
  have "I (snd (awaitExec env c s))" if "I s" for s
    using ghostStable_issue [OF assms that, of c]
    by (simp add: awaitExec_def Let_def)
  then show ?thesis
    by (simp add: preserves_def)
qed

lemma preserves_downloadFiles [pres]:
  "(\<And>u. preserves I (downloadFile env u)) \<Longrightarrow> preserves I (downloadFiles env us)"
  by (induction us) (simp_all add: preserves_ret preserves_bind)

lemma waitForDeploySignal_loop_exit:
  "isStopped s \<or> \<not> polls < maxPolls \<Longrightarrow>
   waitForDeploySignal_loop env polls s =
     block [emit env EvDeploySignalTimeout, setError env (JsError timeoutMessage)] s"
  by (subst waitForDeploySignal_loop.simps) (auto simp del: block.simps)

lemma waitForDeploySignal_loop_step:
  "\<not> isStopped s \<Longrightarrow> polls < maxPolls \<Longrightarrow>
   waitForDeploySignal_loop env polls s =
     (case signalPoll env s of
        (Normal Continue, s') \<Rightarrow> waitForDeploySignal_loop env (polls + 1) s'
      | (Normal Break, s') \<Rightarrow> (Normal (), s')
      | (Normal Return, s') \<Rightarrow> (Normal (), s')
      | (Throws e, s') \<Rightarrow> (Throws e, s')
      | (Uncaught e, s') \<Rightarrow> (Uncaught e, s'))"
  by (subst waitForDeploySignal_loop.simps) (simp del: block.simps)

lemma preserves_waitForDeploySignal_loop_aux:
  "preserves I (signalPoll env) \<Longrightarrow>
   preserves I
     (block [emit env EvDeploySignalTimeout, setError env (JsError timeoutMessage)]) \<Longrightarrow>
   I s \<Longrightarrow> I (snd (waitForDeploySignal_loop env polls s))"
proof (induction env polls s rule: waitForDeploySignal_loop.induct)
  case (1 env polls s)
  note poll = "1.prems"(1) and exit = "1.prems"(2) and I = "1.prems"(3)
  show ?case
  proof (cases "\<not> isStopped s \<and> polls < maxPolls")
    case False
    with preservesD [OF exit I] show ?thesis
      by (simp add: waitForDeploySignal_loop_exit del: block.simps)
  next
    case True
    obtain r s' where eq: "signalPoll env s = (r, s')"
      by (cases "signalPoll env s")
    have s': "I s'"
      using preservesD [OF poll I] eq by simp
    show ?thesis
    proof (cases "r = Normal Continue")
      case c: True
      from "1.IH" [OF True eq [symmetric] _ _ poll exit s'] c
      have "I (snd (waitForDeploySignal_loop env (polls + 1) s'))"
        by simp
      with True eq c show ?thesis
        by (simp add: waitForDeploySignal_loop_step)
    next
      case False
      with eq s' True show ?thesis
        by (simp add: waitForDeploySignal_loop_step split: outcome.splits ctl.splits)
    qed
  qed
qed

lemma preserves_waitForDeploySignal_loop [pres]:
  "preserves I (signalPoll env) \<Longrightarrow>
   preserves I
     (block [emit env EvDeploySignalTimeout, setError env (JsError timeoutMessage)]) \<Longrightarrow>
   preserves I (waitForDeploySignal_loop env polls)"
  using preserves_waitForDeploySignal_loop_aux [of I env] by (simp add: preserves_def)

lemma triple_pres:
  "preserves I m \<Longrightarrow> (\<And>v s. I s \<Longrightarrow> N v s) \<Longrightarrow> (\<And>s. I s \<Longrightarrow> E s) \<Longrightarrow> triple I m N E"
  by (auto simp: triple_def preserves_def split: prod.splits outcome.splits)

lemma triple_ret: "(\<And>s. P s \<Longrightarrow> N v s) \<Longrightarrow> triple P (ret v) N E"
  by (simp add: triple_def ret_def)

lemma triple_throw: "(\<And>s. P s \<Longrightarrow> E s) \<Longrightarrow> triple P (throw e) N E"
  by (simp add: triple_def throw_def)

lemma triple_modify: "(\<And>s. P s \<Longrightarrow> N () (f s)) \<Longrightarrow> triple P (modify f) N E"
  by (simp add: triple_def modify_def)

lemma triple_bind:
  "triple P m R E \<Longrightarrow> (\<And>v. triple (R v) (f v) N E) \<Longrightarrow> triple P (bind m f) N E"
  by (fastforce simp: triple_def bind_def split: prod.splits outcome.splits)

lemma triple_tryCatch:
  "triple P m N R \<Longrightarrow> (\<And>e. triple R (h e) N E) \<Longrightarrow> (\<And>s. R s \<Longrightarrow> E s) \<Longrightarrow>
   triple P (tryCatch m h) N E"
  by (fastforce simp: triple_def tryCatch_def split: prod.splits outcome.splits)

lemma triple_block_Nil: "(\<And>s. P s \<Longrightarrow> N () s) \<Longrightarrow> triple P (block []) N E"
  by (simp add: triple_ret)

lemma triple_block_Cons:
  "triple P m (\<lambda>_. R) E \<Longrightarrow> triple R (block ms) N E \<Longrightarrow> triple P (block (m # ms)) N E"
  by (simp add: triple_bind)

lemma triple_reading:
  "(\<And>x. triple (\<lambda>s. P s \<and> s = x) (f x) N E) \<Longrightarrow> triple P (reading f) N E"
  by (simp add: triple_def reading_def)

lemma triple_if:
  "(c \<Longrightarrow> triple P a N E) \<Longrightarrow> (\<not> c \<Longrightarrow> triple P b N E) \<Longrightarrow>
   triple P (if c then a else b) N E"
  by simp

lemma triple_weaken:
  "triple P' m N' E' \<Longrightarrow> (\<And>s. P s \<Longrightarrow> P' s) \<Longrightarrow> (\<And>v s. N' v s \<Longrightarrow> N v s) \<Longrightarrow>
   (\<And>s. E' s \<Longrightarrow> E s) \<Longrightarrow> triple P m N E"
  by (fastforce simp: triple_def split: prod.splits outcome.splits)

lemma tripleD: "triple P m N E \<Longrightarrow> P s \<Longrightarrow> m s = (Normal v, s') \<Longrightarrow> N v s'"
  by (fastforce simp: triple_def)

subsection \<open>What the methods below the probe loop leave unchanged\<close>

lemma unchanged_refl: "unchanged s s"
  by (simp add: unchanged_def)

lemma unchanged_stop: "preserves (unchanged s0) (stop env)"
  unfolding stop_def by (intro pres) (simp_all add: unchanged_def)

lemma unchanged_ghostStable: "ghostStable env (unchanged s0)"
  by (simp add: ghostStable_def unchanged_stop) (simp add: unchanged_def)

lemma unchanged_setError: "preserves (unchanged s0) (setError env e)"
  unfolding setError_def by (intro pres) (simp_all add: unchanged_def)

lemma unchanged_execCommand: "preserves (unchanged s0) (execCommand env cmd cwd)"
  unfolding execCommand_def
  by (intro pres) (simp_all add: unchanged_ghostStable, simp_all add: unchanged_def)

lemma unchanged_downloadFile: "preserves (unchanged s0) (downloadFile env u)"
  unfolding downloadFile_def Let_def
  by (intro pres) (simp_all add: unchanged_ghostStable, simp_all add: unchanged_def)

lemma unchanged_deployBots: "preserves (unchanged s0) (deployBots env)"
  unfolding deployBots_def
  by (intro pres unchanged_downloadFile unchanged_execCommand unchanged_setError)
    (simp_all add: unchanged_ghostStable, simp_all add: unchanged_def)

lemma unchanged_tryConnectToGemelo: "preserves (unchanged s0) (tryConnectToGemelo env)"
  unfolding tryConnectToGemelo_def
  by (intro pres) (simp_all add: unchanged_ghostStable, simp_all add: unchanged_def)

lemma unchanged_signalPoll: "preserves (unchanged s0) (signalPoll env)"
  unfolding signalPoll_def
  by (intro pres unchanged_deployBots)
    (simp_all add: unchanged_ghostStable, simp_all add: unchanged_def)

lemma unchanged_waitForDeploySignal: "preserves (unchanged s0) (waitForDeploySignal env)"
  unfolding waitForDeploySignal_def
  by (intro pres unchanged_signalPoll unchanged_setError) (simp_all add: unchanged_def)

lemma preserves_budget:
  assumes "\<And>s0. preserves (unchanged s0) m"
  shows "preserves (budget c r) m"
proof -
  have "budget c r (snd (m s))" if "budget c r s" for s
    using preservesD [OF assms unchanged_refl, of s] that
    by (simp add: budget_def unchanged_def)
  then show ?thesis
    by (simp add: preserves_def)
qed

lemma unchanged_sleep: "preserves (unchanged s0) (sleep env ms)"
  by (simp add: preserves_sleep unchanged_ghostStable)

lemma unchanged_emit: "preserves (unchanged s0) (emit env ev)"
  by (rule preserves_emit) (simp add: unchanged_def)

lemma budget_retry_tail:
  "triple (budget c (r + 1))
     (reading (\<lambda>s.
        if retries s \<ge> maxRetries (config s) then ret Break
        else bind (sleep env (retryIntervalMs (config s))) (\<lambda>_. ret Continue)))
     (\<lambda>k s. budget c r s \<and> (k = Continue \<longrightarrow> r < retries s)) (budget c r)"
  apply (rule triple_weaken [where P' = "budget c (r + 1)" and N' = "\<lambda>_. budget c (r + 1)"
        and E' = "budget c (r + 1)"])
     apply (rule triple_pres)
       apply (intro preserves_reading preserves_if preserves_bind preserves_ret
        preserves_budget unchanged_sleep)
  by (simp_all add: budget_def)

lemma budget_catch:
  "triple (budget c r) (attemptConnectionLoop_catch env e)
     (\<lambda>k s. budget c r s \<and> (k = Continue \<longrightarrow> r < retries s)) (budget c r)"
  unfolding attemptConnectionLoop_catch_def
  apply (rule triple_bind [where R = "\<lambda>_. budget c (r + 1)"])
   apply (rule triple_block_Cons [where R = "budget c r"])
    apply (rule triple_pres [OF preserves_budget [OF unchanged_setError]]; simp)
   apply (rule triple_block_Cons [where R = "budget c (r + 1)"])
    apply (rule triple_modify; simp add: budget_def)
   apply (rule triple_block_Nil; simp)
  by (rule budget_retry_tail)

lemma budget_connected:
  "preserves (budget c r)
     (block [
        assign Connected,
        reading (\<lambda>s. emit env (EvStateChange (state s))),
        emit env EvConnected,
        waitForDeploySignal env])"
  by (intro preserves_budget preserves_block_Cons preserves_block_Nil preserves_assign
      preserves_reading unchanged_emit unchanged_waitForDeploySignal)
    (simp add: unchanged_def)

lemma budget_body:
  "triple (budget c r) (attemptConnectionLoop_body env)
     (\<lambda>k s. budget c r s \<and> (k = Continue \<longrightarrow> r < retries s)) (budget c r)"
  unfolding attemptConnectionLoop_body_def attemptConnectionLoop_try_def
  apply (rule triple_bind [where R = "\<lambda>_. budget c r"])
   apply (rule triple_pres)
     apply (intro preserves_reading preserves_budget unchanged_emit)
    apply simp
   apply simp
  apply (rule triple_tryCatch [where R = "budget c r"])
    apply (rule triple_bind [where R = "\<lambda>_. budget c r"])
     apply (rule triple_pres [OF preserves_budget [OF unchanged_tryConnectToGemelo]]; simp)
    apply (rule triple_if)
     apply (rule triple_bind [where R = "\<lambda>_. budget c r"])
      apply (rule triple_pres [OF budget_connected]; simp)
     apply (rule triple_ret; simp)
    apply (rule triple_bind [where R = "\<lambda>_. budget c (r + 1)"])
     apply (rule triple_block_Cons [where R = "budget c (r + 1)"])
      apply (rule triple_modify; simp add: budget_def)
     apply (rule triple_pres)
       apply (intro preserves_block_Cons preserves_block_Nil preserves_reading
        preserves_budget unchanged_emit)
      apply simp
     apply (simp add: budget_def)
    apply (rule budget_retry_tail)
   apply (rule budget_catch)
  by simp

lemma attemptConnectionLoop_body_Continue:
  assumes "attemptConnectionLoop_body env s = (Normal Continue, s')"
  shows "config s' = config s \<and> retries s < retries s'"
  using tripleD [OF budget_body [of "config s" "retries s" env] _ assms]
  by (simp add: budget_def)

subsection \<open>The probe loop and the public methods\<close>

function attemptConnectionLoop :: "env \<Rightarrow> unit prog" where
  "attemptConnectionLoop env s =
     (if \<not> isStopped s \<and> retries s < maxRetries (config s) then
        (case attemptConnectionLoop_body env s of
           (Normal Continue, s') \<Rightarrow> attemptConnectionLoop env s'
         | (Normal Break, s') \<Rightarrow> enterListening env s'
         | (Normal Return, s') \<Rightarrow> (Normal (), s')
         | (Throws e, s') \<Rightarrow> (Throws e, s')
         | (Uncaught e, s') \<Rightarrow> (Uncaught e, s'))
      else enterListening env s)"
  by pat_completeness auto
termination
proof (relation "measure (\<lambda>(env, s). nat (maxRetries (config s) - retries s))")
  show "wf (measure (\<lambda>(env, s). nat (maxRetries (config s) - retries s)))"
    by simp
next
  fix env s r s' c
  assume more: "\<not> isStopped s \<and> retries s < maxRetries (config s)"
    and "(r, s') = attemptConnectionLoop_body env s" and "r = Normal c" and "c = Continue"
  then have "attemptConnectionLoop_body env s = (Normal Continue, s')"
    by simp
  from attemptConnectionLoop_body_Continue [OF this] more
  show "((env, s'), env, s) \<in> measure (\<lambda>(env, s). nat (maxRetries (config s) - retries s))"
    by simp
qed

declare attemptConnectionLoop.simps [simp del]

definition start :: "env \<Rightarrow> unit prog" where
  "start env =
     block [
       modify (\<lambda>s. s\<lparr>isStopped := False\<rparr>),
       assign Searching,
       modify (\<lambda>s. s\<lparr>retries := 0\<rparr>),
       reading (\<lambda>s. emit env (EvStateChange (state s))),
       tryCatch (attemptConnectionLoop env) (\<lambda>error. setError env error)]"

definition wakeUpGemelo :: "env \<Rightarrow> unit prog" where
  "wakeUpGemelo env =
     reading (\<lambda>s.
       if state s \<noteq> Listening then ret ()
       else
         tryCatch
           (let wakeUrl = teraboxBaseUrl (options s) @ ''/sync/wake?botId='' @ botId (options s)
            in bind (fetch env
                       (Fetch ''POST'' wakeUrl [(''Content-Type'', ''application/json'')]
                          (Some (JObj [(''internalCode'', JNum (internalCode (config s)))]))))
                 (\<lambda>response. if ok response then emit env EvWokeGemelo else ret ()))
           (\<lambda>error. emit env (EvError error)))"

text \<open>
  The constructor. The spread of \<^verbatim>\<open>options.config\<close> over the defaults: a field that is
  present replaces the default.
\<close>

definition defaultConfig :: SyncConfig where
  "defaultConfig =
     \<lparr>maxRetries = 5,
      retryIntervalMs = 7000,
      connectionTimeoutMs = 8000,
      internalCode = 720,
      pingUrl = [],
      botsFilesUrls = [],
      botsExecCommand = ''node bot.js'',
      deployPath = ''./deployedBots''\<rparr>"

definition spread :: "SyncConfig \<Rightarrow> PartialSyncConfig option \<Rightarrow> SyncConfig" where
  "spread d po =
     (case po of
        None \<Rightarrow> d
      | Some p \<Rightarrow>
          \<lparr>maxRetries = (case opt_maxRetries p of None \<Rightarrow> maxRetries d | Some v \<Rightarrow> v),
           retryIntervalMs =
             (case opt_retryIntervalMs p of None \<Rightarrow> retryIntervalMs d | Some v \<Rightarrow> v),
           connectionTimeoutMs =
             (case opt_connectionTimeoutMs p of None \<Rightarrow> connectionTimeoutMs d | Some v \<Rightarrow> v),
           internalCode = (case opt_internalCode p of None \<Rightarrow> internalCode d | Some v \<Rightarrow> v),
           pingUrl = (case opt_pingUrl p of None \<Rightarrow> pingUrl d | Some v \<Rightarrow> v),
           botsFilesUrls =
             (case opt_botsFilesUrls p of None \<Rightarrow> botsFilesUrls d | Some v \<Rightarrow> v),
           botsExecCommand =
             (case opt_botsExecCommand p of None \<Rightarrow> botsExecCommand d | Some v \<Rightarrow> v),
           deployPath = (case opt_deployPath p of None \<Rightarrow> deployPath d | Some v \<Rightarrow> v)\<rparr>)"

definition newSyncManager :: "SyncManagerOptions \<Rightarrow> SyncManager" where
  "newSyncManager opts =
     (let cfg = spread defaultConfig (opt_config opts);
          cfg' = (if pingUrl cfg = [] then
                    cfg\<lparr>pingUrl := teraboxBaseUrl opts @ ''/sync/ping?botId='' @ botId opts\<rparr>
                  else cfg)
      in \<lparr>state = Idle, retries = 0, config = cfg', options = opts, isStopped = False,
          events = [], calls = [], tick = 0, writes = []\<rparr>)"

section \<open>The vocabulary of the properties\<close>

text \<open>A configuration field is omitted, or supplied with a value, at construction.\<close>

definition omitted :: "(PartialSyncConfig \<Rightarrow> 'a option) \<Rightarrow> SyncManagerOptions \<Rightarrow> bool" where
  "omitted field opts = (case opt_config opts of None \<Rightarrow> True | Some p \<Rightarrow> field p = None)"

definition supplied ::
  "(PartialSyncConfig \<Rightarrow> 'a option) \<Rightarrow> SyncManagerOptions \<Rightarrow> 'a \<Rightarrow> bool" where
  "supplied field opts v =
     (case opt_config opts of None \<Rightarrow> False | Some p \<Rightarrow> field p = Some v)"

text \<open>No listener throws; the owner never calls \<^verbatim>\<open>stop()\<close>.\<close>

definition quiet :: "env \<Rightarrow> bool" where
  "quiet env = (\<forall>ev. listener env ev = None)"

definition neverStopped :: "env \<Rightarrow> bool" where
  "neverStopped env = (\<forall>t. \<not> stops env t)"

text \<open>The requests of the probe and of the signal poll.\<close>

definition pingRequest :: "SyncManager \<Rightarrow> call" where
  "pingRequest s = Fetch ''GET'' (pingUrl (config s)) [] None"

definition signalRequest :: "SyncManager \<Rightarrow> call" where
  "signalRequest s =
     Fetch ''GET'' (teraboxBaseUrl (options s) @ ''/sync/deploySignal'')
       [(''Content-Type'', ''application/json'')] None"

definition wakeRequest :: "SyncManager \<Rightarrow> call" where
  "wakeRequest s =
     Fetch ''POST'' (teraboxBaseUrl (options s) @ ''/sync/wake?botId='' @ botId (options s))
       [(''Content-Type'', ''application/json'')]
       (Some (JObj [(''internalCode'', JNum (internalCode (config s)))]))"

text \<open>
  A reply to the probe is a valid peer record: HTTP-OK, structured data with a numeric
  \<^verbatim>\<open>internalCode\<close> equal to the configured code and a string \<^verbatim>\<open>botId\<close> other than the
  agent's own.
\<close>

definition validPeer :: "SyncManager \<Rightarrow> JsError + HttpResponse \<Rightarrow> bool" where
  "validPeer s reply =
     (\<exists>response data code peer.
        reply = Inr response \<and> ok response \<and> json_body response = Inr data \<and>
        getProp data ''internalCode'' = Some (JNum code) \<and>
        getProp data ''botId'' = Some (JStr peer) \<and>
        code = internalCode (config s) \<and> peer \<noteq> botId (options s))"

text \<open>A reply to the signal poll approves the deployment: HTTP-OK with \<^verbatim>\<open>{ deploy: true }\<close>.\<close>

definition deployApproved :: "JsError + HttpResponse \<Rightarrow> bool" where
  "deployApproved reply =
     (\<exists>response body.
        reply = Inr response \<and> ok response \<and> json_body response = Inr body \<and>
        getProp body ''deploy'' = Some (JBool True))"

text \<open>The state carried by the last \<^verbatim>\<open>stateChange\<close> notification, \<open>st\<close> if there is none.\<close>

fun announced :: "event list \<Rightarrow> SyncState \<Rightarrow> SyncState" where
  "announced [] st = st"
| "announced (EvStateChange x # evs) st = announced evs x"
| "announced (ev # evs) st = announced evs st"

fun isStateChange :: "event \<Rightarrow> bool" where
  "isStateChange (EvStateChange x) = True"
| "isStateChange ev = False"

text \<open>
  The \<^verbatim>\<open>stateChange\<close> notifications of a list whose first element is notification
  number \<open>n\<close>: the number of each and the state it carries.
\<close>

fun stateChanges :: "nat \<Rightarrow> event list \<Rightarrow> (nat \<times> SyncState) list" where
  "stateChanges n [] = []"
| "stateChanges n (EvStateChange x # evs) = (n, x) # stateChanges (Suc n) evs"
| "stateChanges n (ev # evs) = stateChanges (Suc n) evs"

text \<open>
  Since the moment \<open>s0\<close>, notifications and assignments were only added; the state is
  the one carried by the last \<^verbatim>\<open>stateChange\<close> among the new notifications (the state
  of \<open>s0\<close> if there is none); and the new assignments are exactly the new
  \<^verbatim>\<open>stateChange\<close> notifications: an assignment of \<open>x\<close> made when \<open>n\<close> notifications
  had been emitted is logged as \<open>(n, x)\<close>, and notification number \<open>n\<close> is
  \<^verbatim>\<open>stateChange x\<close>.
\<close>

definition tracked :: "SyncManager \<Rightarrow> SyncManager \<Rightarrow> bool" where
  "tracked s0 s =
     (\<exists>new. events s = events s0 @ new \<and> state s = announced new (state s0) \<and>
        writes s = writes s0 @ stateChanges (length (events s0)) new)"

fun isErrorEvent :: "event \<Rightarrow> bool" where
  "isErrorEvent (EvError e) = True"
| "isErrorEvent ev = False"

fun isAttempt :: "event \<Rightarrow> bool" where
  "isAttempt (EvAttempt i) = True"
| "isAttempt ev = False"

fun isRetrying :: "event \<Rightarrow> bool" where
  "isRetrying (EvRetrying i) = True"
| "isRetrying ev = False"

text \<open>The notifications of the passes number \<open>i\<close> to \<open>n\<close> that do not find the twin.\<close>

definition failedPasses :: "int \<Rightarrow> int \<Rightarrow> event list" where
  "failedPasses i n = concat (map (\<lambda>k. [EvAttempt k, EvRetrying k]) [i..n])"

text \<open>The errors that a poll which does not approve reports, and the suspensions it takes.\<close>

definition pollErrors :: "JsError + HttpResponse \<Rightarrow> JsError list" where
  "pollErrors reply =
     (case reply of
        Inl e \<Rightarrow> [e]
      | Inr response \<Rightarrow>
          if ok response then (case json_body response of Inl e \<Rightarrow> [e] | Inr body \<Rightarrow> [])
          else [])"

definition pollTicks :: "JsError + HttpResponse \<Rightarrow> nat" where
  "pollTicks reply = (case reply of Inl e \<Rightarrow> 2 | Inr response \<Rightarrow> if ok response then 3 else 2)"

text \<open>The request for an artifact; the calls and notifications of one downloaded artifact.\<close>

definition artifactRequest :: "string \<Rightarrow> call" where
  "artifactRequest u = Fetch ''GET'' u [] None"

definition artifactCalls :: "env \<Rightarrow> (string \<Rightarrow> string) \<Rightarrow> string \<Rightarrow> string \<Rightarrow> call list" where
  "artifactCalls env content dir u =
     [artifactRequest u, WriteFile (resolve env dir (basename env u)) (content u)]"

definition artifactEvents :: "env \<Rightarrow> string \<Rightarrow> event list" where
  "artifactEvents env u = [EvDownloadStart u, EvDownloadComplete (basename env u)]"

text \<open>
  The host delivers the artifact \<open>u\<close> with the body \<open>content u\<close> and the file system writes
  it into \<open>dir\<close>, whenever asked; the host answers the request for \<open>u\<close> with a non-success
  response, whenever asked.
\<close>

definition delivers :: "env \<Rightarrow> (string \<Rightarrow> string) \<Rightarrow> string \<Rightarrow> string \<Rightarrow> bool" where
  "delivers env content dir u =
     ((\<forall>t. \<exists>r. fetch_reply env t (artifactRequest u) = Inr r \<and> ok r \<and>
                text_body r = Inr (content u)) \<and>
      (\<forall>t. fs_reply env t (WriteFile (resolve env dir (basename env u)) (content u)) = None))"

definition refuses :: "env \<Rightarrow> string \<Rightarrow> bool" where
  "refuses env u = (\<forall>t. \<exists>r. fetch_reply env t (artifactRequest u) = Inr r \<and> \<not> ok r)"

text \<open>No listener of a notification other than \<^verbatim>\<open>error\<close> throws.\<close>

definition calm :: "env \<Rightarrow> bool" where
  "calm env = (\<forall>ev. \<not> isErrorEvent ev \<longrightarrow> listener env ev = None)"

text \<open>
  The failure of the download of the artifact \<open>u\<close> into \<open>dir\<close> when it is requested at
  suspension \<open>t\<close>: the request is rejected, the response is not a success, its body
  cannot be read, or the file cannot be written (two suspensions later). \<open>None\<close>: the
  artifact is downloaded and written, which takes three suspensions.
\<close>

definition artifactError :: "env \<Rightarrow> string \<Rightarrow> string \<Rightarrow> nat \<Rightarrow> JsError option" where
  "artifactError env dir u t =
     (case fetch_reply env t (artifactRequest u) of
        Inl e \<Rightarrow> Some e
      | Inr res \<Rightarrow>
          if \<not> ok res then Some (JsError (''No se pudo descargar archivo: '' @ u))
          else
            (case text_body res of
               Inl e \<Rightarrow> Some e
             | Inr fileData \<Rightarrow>
                 fs_reply env (t + 2)
                   (WriteFile (resolve env dir (basename env u)) fileData)))"

fun firstArtifactError :: "env \<Rightarrow> string \<Rightarrow> string list \<Rightarrow> nat \<Rightarrow> JsError option" where
  "firstArtifactError env dir [] t = None"
| "firstArtifactError env dir (u # us) t =
     (case artifactError env dir u t of
        Some e \<Rightarrow> Some e
      | None \<Rightarrow> firstArtifactError env dir us (t + 3))"

text \<open>
  The first failure of a deployment that starts at the moment \<open>s\<close>: of the creation of
  the directory, of an artifact in the listed order, or of the launch of the process
  (the error its callback receives). \<open>None\<close>: no step fails.
\<close>

definition deployError :: "env \<Rightarrow> SyncManager \<Rightarrow> JsError option" where
  "deployError env s =
     (let dir = deployPath (config s); urls = botsFilesUrls (config s)
      in case fs_reply env (tick s) (Mkdir dir) of
           Some e \<Rightarrow> Some e
         | None \<Rightarrow>
             (case firstArtifactError env dir urls (tick s + 1) of
                Some e \<Rightarrow> Some e
              | None \<Rightarrow>
                  fst (exec_reply env (tick s + 1 + 3 * length urls)
                         (Exec (botsExecCommand (config s)) dir))))"

text \<open>A method that never ends by an exception inside a child-process callback.\<close>

definition settles :: "'a prog \<Rightarrow> bool" where
  "settles m = (\<forall>s e. fst (m s) \<noteq> Uncaught e)"

text \<open>Since \<open>s0\<close>, notifications were only added, and each of them satisfies \<open>P\<close>.\<close>

definition grown :: "(event \<Rightarrow> bool) \<Rightarrow> SyncManager \<Rightarrow> SyncManager \<Rightarrow> bool" where
  "grown P s0 s = (\<exists>new. events s = events s0 @ new \<and> list_all P new)"

text \<open>
  The notifications before the end of a deployment; those that are not the time-out of
  the signal wait; those that are not \<^verbatim>\<open>retrying\<close>; those of the signal wait before a
  deployment starts.
\<close>

definition plainEvent :: "event \<Rightarrow> bool" where
  "plainEvent ev = (\<not> isErrorEvent ev \<and> ev \<noteq> EvDeploySuccess)"

definition notTimeout :: "event \<Rightarrow> bool" where
  "notTimeout ev = (ev \<noteq> EvDeploySignalTimeout)"


definition beforeDeploy :: "event \<Rightarrow> bool" where
  "beforeDeploy ev = (ev \<noteq> EvDeployStart \<and> ev \<noteq> EvDeploySignalTimeout)"

text \<open>
  Since \<open>s0\<close>, notifications were only added, and not both the start of a deployment and
  the time-out of the signal wait.
\<close>

definition deployOrTimeout :: "SyncManager \<Rightarrow> SyncManager \<Rightarrow> bool" where
  "deployOrTimeout s0 s =
     (\<exists>new. events s = events s0 @ new \<and>
        \<not> (EvDeployStart \<in> set new \<and> EvDeploySignalTimeout \<in> set new))"

text \<open>The notifications emitted, and the calls issued, between two moments.\<close>

definition newEvents :: "SyncManager \<Rightarrow> SyncManager \<Rightarrow> event list" where
  "newEvents s s' = drop (length (events s)) (events s')"

definition newCalls :: "SyncManager \<Rightarrow> SyncManager \<Rightarrow> call list" where
  "newCalls s s' = drop (length (calls s)) (calls s')"

definition newWrites :: "SyncManager \<Rightarrow> SyncManager \<Rightarrow> (nat \<times> SyncState) list" where
  "newWrites s s' = drop (length (writes s)) (writes s')"

text \<open>
  Between the moments \<open>s\<close> and \<open>s'\<close> every assignment to the state was followed, before
  any other notification, by the \<^verbatim>\<open>stateChange\<close> notification that carries the assigned
  state, no \<^verbatim>\<open>stateChange\<close> was emitted without an assignment, and the state of \<open>s'\<close>
  is the last one announced.
\<close>

definition changesAnnounced :: "SyncManager \<Rightarrow> SyncManager \<Rightarrow> bool" where
  "changesAnnounced s s' =
     (events s' = events s @ newEvents s s' \<and>
      writes s' = writes s @ newWrites s s' \<and>
      newWrites s s' = stateChanges (length (events s)) (newEvents s s') \<and>
      state s' = announced (newEvents s s') (state s))"

section \<open>Concrete collaborators\<close>

text \<open>The options of the handler of the repository, without a configuration.\<close>

definition bareOptions :: SyncManagerOptions where
  "bareOptions =
     \<lparr>botId = ''FalsoBot_Carnada_01'', teraboxBaseUrl = ''https://terabox.com/bots'',
      opt_config = None\<rparr>"

text \<open>
  A service that refuses every connection; a file system and a child process that
  succeed; listeners that return; an owner who never stops.
\<close>

definition deadEnv :: env where
  "deadEnv =
     \<lparr>listener = (\<lambda>ev. None),
      stops = (\<lambda>t. False),
      fetch_reply = (\<lambda>t c. Inl (JsError ''ECONNREFUSED'')),
      fs_reply = (\<lambda>t c. None),
      exec_reply = (\<lambda>t c. (None, [], [])),
      basename = (\<lambda>u. rev (takeWhile (\<lambda>c. c \<noteq> CHR ''/'') (rev u))),
      resolve = (\<lambda>dir f. dir @ ''/'' @ f)\<rparr>"

text \<open>A reply of a twin, and the reply that echoes the agent's own identifier.\<close>

definition peerResponse :: HttpResponse where
  "peerResponse =
     \<lparr>ok = True,
      json_body = Inr (JObj [(''internalCode'', JNum 720), (''botId'', JStr ''other'')]),
      text_body = Inr []\<rparr>"

definition ownResponse :: HttpResponse where
  "ownResponse =
     \<lparr>ok = True,
      json_body =
        Inr (JObj [(''internalCode'', JNum 720), (''botId'', JStr ''FalsoBot_Carnada_01'')]),
      text_body = Inr []\<rparr>"

definition failedResponse :: HttpResponse where
  "failedResponse =
     \<lparr>ok = False, json_body = Inl (JsError ''Unexpected token''), text_body = Inr []\<rparr>"

text \<open>A service where a twin answers every request; a service that answers HTTP 500.\<close>

definition peerEnv :: env where
  "peerEnv = deadEnv\<lparr>fetch_reply := (\<lambda>t c. Inr peerResponse)\<rparr>"

definition echoEnv :: env where
  "echoEnv = deadEnv\<lparr>fetch_reply := (\<lambda>t c. Inr ownResponse)\<rparr>"

definition http500Env :: env where
  "http500Env = deadEnv\<lparr>fetch_reply := (\<lambda>t c. Inr failedResponse)\<rparr>"

text \<open>A manager that has exhausted its probes against the dead service.\<close>

definition listeningManager :: SyncManager where
  "listeningManager = snd (start deadEnv (newSyncManager bareOptions))"

text \<open>
  A twin answers, and the listener of \<^verbatim>\<open>connected\<close> throws; the service is dead, and
  the listener of \<^verbatim>\<open>retrying\<close> throws; a configuration with one attempt; a manager
  before its fifth and last attempt.
\<close>

definition throwingConnectedEnv :: env where
  "throwingConnectedEnv =
     peerEnv\<lparr>listener :=
       (\<lambda>ev. if ev = EvConnected then Some (JsError ''listener failed'') else None)\<rparr>"

definition throwingRetryingEnv :: env where
  "throwingRetryingEnv =
     deadEnv\<lparr>listener :=
       (\<lambda>ev. if isRetrying ev then Some (JsError ''listener failed'') else None)\<rparr>"

definition oneRetryOptions :: SyncManagerOptions where
  "oneRetryOptions =
     bareOptions\<lparr>opt_config :=
       Some \<lparr>opt_maxRetries = Some 1, opt_retryIntervalMs = None,
         opt_connectionTimeoutMs = None, opt_internalCode = None, opt_pingUrl = None,
         opt_botsFilesUrls = None, opt_botsExecCommand = None, opt_deployPath = None\<rparr>\<rparr>"

definition lastAttemptManager :: SyncManager where
  "lastAttemptManager = (newSyncManager bareOptions)\<lparr>retries := 4\<rparr>"

text \<open>
  Two artifacts; a host that delivers the first and refuses the second, and a host that
  delivers both.
\<close>

definition artifactOptions :: SyncManagerOptions where
  "artifactOptions =
     bareOptions\<lparr>opt_config :=
       Some \<lparr>opt_maxRetries = None, opt_retryIntervalMs = None,
         opt_connectionTimeoutMs = None, opt_internalCode = None, opt_pingUrl = None,
         opt_botsFilesUrls = Some [''https://host/bots/bot.js'', ''https://host/bots/lib.js''],
         opt_botsExecCommand = None, opt_deployPath = None\<rparr>\<rparr>"

definition scriptResponse :: HttpResponse where
  "scriptResponse =
     \<lparr>ok = True, json_body = Inl (JsError ''Unexpected token''), text_body = Inr ''run()''\<rparr>"

definition partialHostEnv :: env where
  "partialHostEnv =
     deadEnv\<lparr>fetch_reply :=
       (\<lambda>t c. if c = artifactRequest ''https://host/bots/bot.js'' then Inr scriptResponse
              else Inr failedResponse)\<rparr>"

definition fullHostEnv :: env where
  "fullHostEnv = deadEnv\<lparr>fetch_reply := (\<lambda>t c. Inr scriptResponse)\<rparr>"

text \<open>
  A file system that refuses every operation; a service that approves the deployment.
\<close>

definition brokenDiskEnv :: env where
  "brokenDiskEnv = deadEnv\<lparr>fs_reply := (\<lambda>t c. Some (JsError ''EACCES''))\<rparr>"

definition approveResponse :: HttpResponse where
  "approveResponse =
     \<lparr>ok = True, json_body = Inr (JObj [(''deploy'', JBool True)]), text_body = Inr []\<rparr>"

definition approvedBrokenDiskEnv :: env where
  "approvedBrokenDiskEnv = brokenDiskEnv\<lparr>fetch_reply := (\<lambda>t c. Inr approveResponse)\<rparr>"

text \<open>A host that delivers every artifact and a process that cannot be launched.\<close>

definition failedLaunchEnv :: env where
  "failedLaunchEnv =
     fullHostEnv\<lparr>exec_reply := (\<lambda>t c. (Some (JsError ''ENOENT''), [], ''node: not found''))\<rparr>"

text \<open>
  The listeners that the handler of the repository registers: those of
  \<^verbatim>\<open>stateChange\<close>, \<^verbatim>\<open>connected\<close> and \<^verbatim>\<open>listening\<close> print and return; there is none of
  \<^verbatim>\<open>error\<close>, so the emitter throws the error it is given. With them, a twin that
  answers the probe and approves the deployment, and a file system that refuses every
  operation.
\<close>

definition handlerListeners :: "event \<Rightarrow> JsError option" where
  "handlerListeners ev = (case ev of EvError e \<Rightarrow> Some e | _ \<Rightarrow> None)"

definition handlerEnv :: env where
  "handlerEnv =
     brokenDiskEnv
       \<lparr>listener := handlerListeners,
        fetch_reply :=
          (\<lambda>t c. if c = signalRequest (newSyncManager bareOptions) then Inr approveResponse
                 else Inr peerResponse)\<rparr>"

section \<open>Properties\<close>

lemmas run_defs =
  start_def stop_def setError_def enterListening_def
  attemptConnectionLoop_body_def attemptConnectionLoop_try_def
  attemptConnectionLoop_catch_def tryConnectToGemelo_def waitForDeploySignal_def signalPoll_def deployBots_def
  execCommand_def downloadFile_def wakeUpGemelo_def
  fetch_def json_def readText_def fsCall_def sleep_def awaitExec_def inCallback_def
  suspend_def emit_def
  bind_def tryCatch_def ret_def throw_def modify_def assign_def reading_def
  newSyncManager_def spread_def defaultConfig_def Let_def

lemmas fixture_defs =
  bareOptions_def deadEnv_def peerResponse_def ownResponse_def failedResponse_def
  peerEnv_def echoEnv_def http500Env_def listeningManager_def
  throwingConnectedEnv_def throwingRetryingEnv_def oneRetryOptions_def
  lastAttemptManager_def
  brokenDiskEnv_def approveResponse_def approvedBrokenDiskEnv_def

lemma suspend_unchanged: "unchanged s (suspend env s)"
  by (rule ghostStable_suspend [OF unchanged_ghostStable unchanged_refl])

lemma suspend_config [simp]: "config (suspend env s) = config s"
  using suspend_unchanged [of s env] by (simp add: unchanged_def)

lemma suspend_options [simp]: "options (suspend env s) = options s"
  using suspend_unchanged [of s env] by (simp add: unchanged_def)

lemma suspend_retries [simp]: "retries (suspend env s) = retries s"
  using suspend_unchanged [of s env] by (simp add: unchanged_def)

lemma typeof_number: "typeof x = ''number'' \<longleftrightarrow> (\<exists>n. x = Some (JNum n))"
  by (cases x rule: typeof.cases) simp_all

lemma typeof_string: "typeof x = ''string'' \<longleftrightarrow> (\<exists>n. x = Some (JStr n))"
  by (cases x rule: typeof.cases) simp_all

lemma isSyncData_iff:
  "isSyncData data \<longleftrightarrow>
     (\<exists>code peer. getProp data ''internalCode'' = Some (JNum code) \<and>
        getProp data ''botId'' = Some (JStr peer))"
  by (cases data) (auto simp: isSyncData_def typeof_number typeof_string)

text \<open>Notifications of one kind.\<close>

lemma grown_refl: "grown P s s"
  by (simp add: grown_def)

lemma grown_logged [simp]:
  "grown P s0 (s\<lparr>calls := cs\<rparr>) = grown P s0 s"
  "grown P s0 (s\<lparr>tick := t\<rparr>) = grown P s0 s"
  "grown P s0 (s\<lparr>retries := r\<rparr>) = grown P s0 s"
  "grown P s0 (s\<lparr>isStopped := b\<rparr>) = grown P s0 s"
  "grown P s0 (s\<lparr>state := x\<rparr>) = grown P s0 s"
  "grown P s0 (s\<lparr>writes := ws\<rparr>) = grown P s0 s"
  by (simp_all add: grown_def)

lemma grown_emit:
  assumes "P ev" and "grown P s0 s"
  shows "grown P s0 (s\<lparr>events := events s @ [ev]\<rparr>)"
proof -
  from assms(2) obtain new where "events s = events s0 @ new" "list_all P new"
    by (auto simp: grown_def)
  with assms(1) show ?thesis
    unfolding grown_def by (intro exI [of _ "new @ [ev]"]) simp
qed

lemma grown_mono: "(\<And>ev. P ev \<Longrightarrow> Q ev) \<Longrightarrow> grown P s0 s \<Longrightarrow> grown Q s0 s"
  by (auto simp: grown_def list_all_iff)

lemma grown_stop: "(\<And>x. P (EvStateChange x)) \<Longrightarrow> preserves (grown P s0) (stop env)"
  unfolding stop_def by (intro pres) (simp_all add: grown_emit)

lemma grown_ghostStable: "(\<And>x. P (EvStateChange x)) \<Longrightarrow> ghostStable env (grown P s0)"
  by (simp add: ghostStable_def grown_stop)

subsection \<open>Construction\<close>

text \<open>
  C9. For every construction of the manager, an omitted configuration field takes its
  default: \<^verbatim>\<open>maxRetries\<close> 5, \<^verbatim>\<open>retryIntervalMs\<close> 7000, \<^verbatim>\<open>connectionTimeoutMs\<close> 8000,
  \<^verbatim>\<open>internalCode\<close> 720, \<^verbatim>\<open>botsFilesUrls\<close> the empty list, \<^verbatim>\<open>botsExecCommand\<close>
  \<^verbatim>\<open>node bot.js\<close>, \<^verbatim>\<open>deployPath\<close> \<^verbatim>\<open>./deployedBots\<close>; and when \<^verbatim>\<open>pingUrl\<close> is omitted or
  supplied as the empty string, it is the base URL followed by \<^verbatim>\<open>/sync/ping?botId=\<close> and
  the agent's identifier.
\<close>

theorem constructor_defaults:
  "(omitted opt_maxRetries opts \<longrightarrow> maxRetries (config (newSyncManager opts)) = 5) \<and>
   (omitted opt_retryIntervalMs opts \<longrightarrow>
      retryIntervalMs (config (newSyncManager opts)) = 7000) \<and>
   (omitted opt_connectionTimeoutMs opts \<longrightarrow>
      connectionTimeoutMs (config (newSyncManager opts)) = 8000) \<and>
   (omitted opt_internalCode opts \<longrightarrow> internalCode (config (newSyncManager opts)) = 720) \<and>
   (omitted opt_botsFilesUrls opts \<longrightarrow> botsFilesUrls (config (newSyncManager opts)) = []) \<and>
   (omitted opt_botsExecCommand opts \<longrightarrow>
      botsExecCommand (config (newSyncManager opts)) = ''node bot.js'') \<and>
   (omitted opt_deployPath opts \<longrightarrow>
      deployPath (config (newSyncManager opts)) = ''./deployedBots'') \<and>
   (omitted opt_pingUrl opts \<or> supplied opt_pingUrl opts [] \<longrightarrow>
      pingUrl (config (newSyncManager opts)) =
        teraboxBaseUrl opts @ ''/sync/ping?botId='' @ botId opts)"
  by (simp add: newSyncManager_def spread_def defaultConfig_def omitted_def supplied_def
      Let_def split: option.splits)

theorem constructor_defaults_witness:
  "omitted opt_maxRetries bareOptions \<and>
   maxRetries (config (newSyncManager bareOptions)) = 5 \<and>
   omitted opt_retryIntervalMs bareOptions \<and>
   retryIntervalMs (config (newSyncManager bareOptions)) = 7000 \<and>
   omitted opt_connectionTimeoutMs bareOptions \<and>
   connectionTimeoutMs (config (newSyncManager bareOptions)) = 8000 \<and>
   omitted opt_internalCode bareOptions \<and>
   internalCode (config (newSyncManager bareOptions)) = 720 \<and>
   omitted opt_botsFilesUrls bareOptions \<and>
   botsFilesUrls (config (newSyncManager bareOptions)) = [] \<and>
   omitted opt_botsExecCommand bareOptions \<and>
   botsExecCommand (config (newSyncManager bareOptions)) = ''node bot.js'' \<and>
   omitted opt_deployPath bareOptions \<and>
   deployPath (config (newSyncManager bareOptions)) = ''./deployedBots'' \<and>
   omitted opt_pingUrl bareOptions \<and>
   pingUrl (config (newSyncManager bareOptions)) =
     ''https://terabox.com/bots/sync/ping?botId=FalsoBot_Carnada_01''"
  using constructor_defaults [of bareOptions]
  by (simp add: omitted_def bareOptions_def)

subsection \<open>The probe\<close>

text \<open>
  C5. When the listeners of \<^verbatim>\<open>gemeloFound\<close> return, a probe attempt counts as a match
  if and only if the reply is HTTP-OK and parses to structured data with a numeric
  \<^verbatim>\<open>internalCode\<close> equal to the configured code and a string \<^verbatim>\<open>botId\<close> different from
  the agent's own; every other attempt is "not found". In particular a reply whose
  \<^verbatim>\<open>botId\<close> is the agent's own identifier is rejected, whatever its code.
\<close>

theorem tryConnectToGemelo_match:
  assumes "\<forall>peer. listener env (EvGemeloFound peer) = None"
  shows "fst (tryConnectToGemelo env s) =
           Normal (validPeer s (fetch_reply env (tick s) (pingRequest s))) \<and>
         (\<forall>response data.
            fetch_reply env (tick s) (pingRequest s) = Inr response \<and>
            json_body response = Inr data \<and>
            getProp data ''botId'' = Some (JStr (botId (options s))) \<longrightarrow>
            fst (tryConnectToGemelo env s) = Normal False)"
proof -
  have match: "fst (tryConnectToGemelo env s) =
      Normal (validPeer s (fetch_reply env (tick s) (pingRequest s)))"
    using assms
    by (auto simp: tryConnectToGemelo_def tryCatch_def bind_def reading_def fetch_def
        json_def ret_def emit_def Let_def validPeer_def pingRequest_def isSyncData_iff
        split: sum.splits prod.splits outcome.splits option.splits)
  moreover have "\<not> validPeer s (Inr response)"
    if "json_body response = Inr data"
      and "getProp data ''botId'' = Some (JStr (botId (options s)))" for response data
    using that by (auto simp: validPeer_def)
  ultimately show ?thesis
    by auto
qed

theorem tryConnectToGemelo_match_witness:
  "(\<forall>peer. listener peerEnv (EvGemeloFound peer) = None) \<and>
   fst (tryConnectToGemelo peerEnv (newSyncManager bareOptions)) = Normal True \<and>
   (\<forall>peer. listener echoEnv (EvGemeloFound peer) = None) \<and>
   fetch_reply echoEnv (tick (newSyncManager bareOptions))
     (pingRequest (newSyncManager bareOptions)) = Inr ownResponse \<and>
   json_body ownResponse =
     Inr (JObj [(''internalCode'', JNum 720), (''botId'', JStr ''FalsoBot_Carnada_01'')]) \<and>
   getProp (JObj [(''internalCode'', JNum 720), (''botId'', JStr ''FalsoBot_Carnada_01'')])
     ''botId'' = Some (JStr (botId (options (newSyncManager bareOptions)))) \<and>
   fst (tryConnectToGemelo echoEnv (newSyncManager bareOptions)) = Normal False"
proof -
  have quiet: "\<forall>peer. listener peerEnv (EvGemeloFound peer) = None"
    "\<forall>peer. listener echoEnv (EvGemeloFound peer) = None"
    by (simp_all add: fixture_defs)
  have "validPeer (newSyncManager bareOptions)
          (fetch_reply peerEnv (tick (newSyncManager bareOptions))
             (pingRequest (newSyncManager bareOptions)))"
    by (simp add: validPeer_def newSyncManager_def spread_def defaultConfig_def Let_def
        fixture_defs)
  moreover have "\<not> validPeer (newSyncManager bareOptions)
          (fetch_reply echoEnv (tick (newSyncManager bareOptions))
             (pingRequest (newSyncManager bareOptions)))"
    by (simp add: validPeer_def newSyncManager_def spread_def defaultConfig_def Let_def
        fixture_defs)
  ultimately show ?thesis
    using tryConnectToGemelo_match [OF quiet(1), of "newSyncManager bareOptions"]
      tryConnectToGemelo_match [OF quiet(2), of "newSyncManager bareOptions"]
    by (simp add: fixture_defs newSyncManager_def Let_def)
qed

subsection \<open>Manual wake\<close>

text \<open>
  C8, as the code has it. For every call to \<^verbatim>\<open>wakeUpGemelo()\<close> made in the listening
  state, with no \<^verbatim>\<open>stop()\<close> during the request: a wake request that fails with a
  network error is reported by one \<^verbatim>\<open>error\<close> notification; a wake request answered
  with a non-success response is not reported (no notification is emitted); in both
  cases the state remains listening.
\<close>

theorem wakeUpGemelo_failure:
  assumes "state s = Listening" and "\<not> stops env (tick s)"
  shows "(\<forall>e. fetch_reply env (tick s) (wakeRequest s) = Inl e \<longrightarrow>
            newEvents s (snd (wakeUpGemelo env s)) = [EvError e] \<and>
            state (snd (wakeUpGemelo env s)) = Listening) \<and>
         (\<forall>response.
            fetch_reply env (tick s) (wakeRequest s) = Inr response \<and> \<not> ok response \<longrightarrow>
            fst (wakeUpGemelo env s) = Normal () \<and>
            newEvents s (snd (wakeUpGemelo env s)) = [] \<and>
            state (snd (wakeUpGemelo env s)) = Listening)"
  using assms
  by (auto simp: wakeUpGemelo_def wakeRequest_def newEvents_def reading_def tryCatch_def
      bind_def fetch_def suspend_def emit_def ret_def Let_def split: option.splits)

lemma listeningManager_eval:
  "state listeningManager = Listening"
  "tick listeningManager = 9"
  "options listeningManager = bareOptions"
  "internalCode (config listeningManager) = 720"
  by (simp_all add: run_defs attemptConnectionLoop.simps fixture_defs)

theorem wakeUpGemelo_failure_witness:
  "state listeningManager = Listening \<and>
   \<not> stops deadEnv (tick listeningManager) \<and>
   fetch_reply deadEnv (tick listeningManager) (wakeRequest listeningManager) =
     Inl (JsError ''ECONNREFUSED'') \<and>
   newEvents listeningManager (snd (wakeUpGemelo deadEnv listeningManager)) =
     [EvError (JsError ''ECONNREFUSED'')] \<and>
   state (snd (wakeUpGemelo deadEnv listeningManager)) = Listening \<and>
   \<not> stops http500Env (tick listeningManager) \<and>
   fetch_reply http500Env (tick listeningManager) (wakeRequest listeningManager) =
     Inr failedResponse \<and>
   \<not> ok failedResponse \<and>
   fst (wakeUpGemelo http500Env listeningManager) = Normal () \<and>
   newEvents listeningManager (snd (wakeUpGemelo http500Env listeningManager)) = [] \<and>
   state (snd (wakeUpGemelo http500Env listeningManager)) = Listening"
proof -
  have a: "\<not> stops deadEnv (tick listeningManager)"
    and b: "\<not> stops http500Env (tick listeningManager)"
    and c: "fetch_reply deadEnv (tick listeningManager) (wakeRequest listeningManager) =
              Inl (JsError ''ECONNREFUSED'')"
    and d: "fetch_reply http500Env (tick listeningManager) (wakeRequest listeningManager) =
              Inr failedResponse"
    and e: "\<not> ok failedResponse"
    by (simp_all add: deadEnv_def http500Env_def failedResponse_def)
  from wakeUpGemelo_failure [OF listeningManager_eval(1) a]
    wakeUpGemelo_failure [OF listeningManager_eval(1) b] c d e
  show ?thesis
    using listeningManager_eval(1) a b by blast
qed

text \<open>
  The claim as stated fails: a wake request answered with HTTP 500 is not reported by
  any notification.
\<close>

theorem wakeUpGemelo_http_failure_silent:
  "state listeningManager = Listening \<and>
   fetch_reply http500Env (tick listeningManager) (wakeRequest listeningManager) =
     Inr failedResponse \<and>
   \<not> ok failedResponse \<and>
   fst (wakeUpGemelo http500Env listeningManager) = Normal () \<and>
   events (snd (wakeUpGemelo http500Env listeningManager)) = events listeningManager"
proof -
  have "wakeUpGemelo http500Env s = (Normal (), suspend http500Env (s\<lparr>calls := calls s @ [wakeRequest s]\<rparr>))"
    if "state s = Listening" for s
    using that
    by (simp add: wakeUpGemelo_def wakeRequest_def reading_def tryCatch_def bind_def
        fetch_def ret_def Let_def http500Env_def failedResponse_def)
  from this [OF listeningManager_eval(1)] listeningManager_eval(1) show ?thesis
    by (simp add: suspend_def http500Env_def deadEnv_def failedResponse_def)
qed

subsection \<open>Stopping\<close>

text \<open>
  C1 fails on the code. A \<^verbatim>\<open>stop()\<close> while the first probe is in flight makes the
  state idle, but when the probe has resolved the loop ends and the statements after it
  make the state listening. A \<^verbatim>\<open>stop()\<close> while the first signal poll is in flight
  (suspension 2, after the probe and the parsing of its reply) makes the state idle, but
  when the poll has resolved the loop ends and the statements after it emit
  \<^verbatim>\<open>deploySignalTimeout\<close> and make the state error.
\<close>

theorem stop_does_not_prevent_transitions:
  "events (snd (start (deadEnv\<lparr>stops := (\<lambda>t. t = 0)\<rparr>) (newSyncManager bareOptions))) =
     [EvStateChange Searching, EvAttempt 1, EvStateChange Idle, EvRetrying 1,
      EvStateChange Listening, EvListening] \<and>
   state (snd (start (deadEnv\<lparr>stops := (\<lambda>t. t = 0)\<rparr>) (newSyncManager bareOptions))) =
     Listening \<and>
   events (snd (start (peerEnv\<lparr>stops := (\<lambda>t. t = 2)\<rparr>) (newSyncManager bareOptions))) =
     [EvStateChange Searching, EvAttempt 1, EvGemeloFound ''other'',
      EvStateChange Connected, EvConnected, EvWaitingDeploySignal,
      EvStateChange Deploying, EvStateChange Idle, EvDeploySignalTimeout,
      EvStateChange Error, EvError (JsError timeoutMessage)] \<and>
   state (snd (start (peerEnv\<lparr>stops := (\<lambda>t. t = 2)\<rparr>) (newSyncManager bareOptions))) =
     Error"
  by (simp add: run_defs attemptConnectionLoop.simps waitForDeploySignal_loop.simps
      fixture_defs maxPolls_def isSyncData_def)

subsection \<open>The probe loop\<close>

lemma suspend_neverStopped: "neverStopped env \<Longrightarrow> suspend env s = s\<lparr>tick := Suc (tick s)\<rparr>"
  by (simp add: suspend_def neverStopped_def)

lemma emit_quiet: "quiet env \<Longrightarrow> emit env ev s = (Normal (), s\<lparr>events := events s @ [ev]\<rparr>)"
  by (simp add: emit_def quiet_def)

lemma sleep_neverStopped:
  "neverStopped env \<Longrightarrow>
   sleep env ms s = (Normal (), s\<lparr>calls := calls s @ [Sleep ms], tick := Suc (tick s)\<rparr>)"
  by (simp add: sleep_def suspend_neverStopped)

lemma setError_quiet:
  "quiet env \<Longrightarrow>
   setError env e s =
     (Normal (),
      s\<lparr>state := Error, writes := writes s @ [(length (events s), Error)],
        events := events s @ [EvStateChange Error, EvError e]\<rparr>)"
  by (simp add: setError_def bind_def modify_def assign_def reading_def emit_quiet ret_def)

lemma enterListening_quiet:
  "quiet env \<Longrightarrow>
   enterListening env s =
     (Normal (),
      s\<lparr>state := Listening, writes := writes s @ [(length (events s), Listening)],
        events := events s @ [EvStateChange Listening, EvListening]\<rparr>)"
  by (simp add: enterListening_def bind_def modify_def assign_def reading_def emit_quiet
      ret_def)

text \<open>
  Two managers that differ in the logged calls, the suspension count and the logged
  assignments only.
\<close>

lemma logged_iff:
  "(\<exists>cs t ws. s' = (s :: SyncManager)\<lparr>calls := cs, tick := t, writes := ws\<rparr>) \<longleftrightarrow>
   (state s' = state s \<and> retries s' = retries s \<and> config s' = config s \<and>
    options s' = options s \<and> isStopped s' = isStopped s \<and> events s' = events s)"
proof
  assume "\<exists>cs t ws. s' = s\<lparr>calls := cs, tick := t, writes := ws\<rparr>"
  then show "state s' = state s \<and> retries s' = retries s \<and> config s' = config s \<and>
    options s' = options s \<and> isStopped s' = isStopped s \<and> events s' = events s"
    by auto
next
  assume "state s' = state s \<and> retries s' = retries s \<and> config s' = config s \<and>
    options s' = options s \<and> isStopped s' = isStopped s \<and> events s' = events s"
  then have "s' = s\<lparr>calls := calls s', tick := tick s', writes := writes s'\<rparr>"
    by (cases s, cases s') simp
  then show "\<exists>cs t ws. s' = s\<lparr>calls := cs, tick := t, writes := ws\<rparr>"
    by blast
qed

lemma tryConnectToGemelo_notFound:
  assumes "neverStopped env"
    and "\<not> validPeer s (fetch_reply env (tick s) (pingRequest s))"
  shows "\<exists>cs t ws. tryConnectToGemelo env s = (Normal False, s\<lparr>calls := cs, tick := t, writes := ws\<rparr>)"
proof (cases "fetch_reply env (tick s) (pingRequest s)")
  case (Inl e)
  then show ?thesis
    using assms(1)
    by (simp add: tryConnectToGemelo_def tryCatch_def bind_def reading_def fetch_def
        ret_def Let_def pingRequest_def suspend_neverStopped logged_iff)
next
  case (Inr response)
  show ?thesis
  proof (cases "ok response")
    case False
    with Inr assms(1) show ?thesis
      by (simp add: tryConnectToGemelo_def tryCatch_def bind_def reading_def fetch_def
          ret_def Let_def pingRequest_def suspend_neverStopped logged_iff)
  next
    case True
    show ?thesis
    proof (cases "json_body response")
      case (Inl e)
      with Inr True assms(1) show ?thesis
        by (simp add: tryConnectToGemelo_def tryCatch_def bind_def reading_def fetch_def
            json_def ret_def Let_def pingRequest_def suspend_neverStopped logged_iff)
    next
      case data: (Inr data)
      from assms(2) Inr True data
      have "\<not> (isSyncData data \<and>
               getProp data ''internalCode'' = Some (JNum (internalCode (config s))) \<and>
               getProp data ''botId'' \<noteq> Some (JStr (botId (options s))))"
        by (auto simp: validPeer_def isSyncData_iff)
      with Inr True data assms(1) show ?thesis
        by (auto simp add: tryConnectToGemelo_def tryCatch_def bind_def reading_def
            fetch_def json_def ret_def Let_def pingRequest_def suspend_neverStopped
            logged_iff)
    qed
  qed
qed

text \<open>A pass of the loop body that does not find the twin.\<close>

lemma attemptConnectionLoop_body_notFound:
  assumes "quiet env" and "neverStopped env"
    and "\<not> validPeer s (fetch_reply env (tick s) (pingRequest s))"
  shows "\<exists>cs t ws. attemptConnectionLoop_body env s =
           (Normal (if maxRetries (config s) \<le> retries s + 1 then Break else Continue),
            s\<lparr>retries := retries s + 1,
              events := events s @ [EvAttempt (retries s + 1), EvRetrying (retries s + 1)],
              calls := cs, tick := t, writes := ws\<rparr>)"
proof -
  let ?s1 = "s\<lparr>events := events s @ [EvAttempt (retries s + 1)]\<rparr>"
  have nf: "\<not> validPeer ?s1 (fetch_reply env (tick ?s1) (pingRequest ?s1))"
    using assms(3) by (simp add: validPeer_def pingRequest_def)
  from tryConnectToGemelo_notFound [OF assms(2) nf]
  obtain cs t ws
    where tc: "tryConnectToGemelo env ?s1 = (Normal False, ?s1\<lparr>calls := cs, tick := t, writes := ws\<rparr>)"
    by blast
  show ?thesis
  proof (cases "maxRetries (config s) \<le> retries s + 1")
    case True
    with tc assms(1) show ?thesis
      by (simp add: attemptConnectionLoop_body_def attemptConnectionLoop_try_def bind_def
          reading_def tryCatch_def modify_def ret_def emit_quiet logged_iff)
  next
    case False
    with tc assms(1,2) show ?thesis
      by (simp add: attemptConnectionLoop_body_def attemptConnectionLoop_try_def bind_def
          reading_def tryCatch_def modify_def ret_def emit_quiet sleep_neverStopped
          logged_iff)
  qed
qed

lemma attemptConnectionLoop_exit:
  "isStopped s \<or> \<not> retries s < maxRetries (config s) \<Longrightarrow>
   attemptConnectionLoop env s = enterListening env s"
  by (subst attemptConnectionLoop.simps) auto

lemma attemptConnectionLoop_step:
  "\<not> isStopped s \<Longrightarrow> retries s < maxRetries (config s) \<Longrightarrow>
   attemptConnectionLoop env s =
     (case attemptConnectionLoop_body env s of
        (Normal Continue, s') \<Rightarrow> attemptConnectionLoop env s'
      | (Normal Break, s') \<Rightarrow> enterListening env s'
      | (Normal Return, s') \<Rightarrow> (Normal (), s')
      | (Throws e, s') \<Rightarrow> (Throws e, s')
      | (Uncaught e, s') \<Rightarrow> (Uncaught e, s'))"
  by (subst attemptConnectionLoop.simps) simp

lemma failedPasses_empty: "n < i \<Longrightarrow> failedPasses i n = []"
  by (simp add: failedPasses_def)

lemma failedPasses_rec:
  "i \<le> n \<Longrightarrow> failedPasses i n = [EvAttempt i, EvRetrying i] @ failedPasses (i + 1) n"
  by (simp add: failedPasses_def upto_rec1)

lemma validPeer_cong:
  "config s' = config s \<Longrightarrow> options s' = options s \<Longrightarrow> validPeer s' r = validPeer s r"
  by (simp add: validPeer_def)

lemma pingRequest_cong: "config s' = config s \<Longrightarrow> pingRequest s' = pingRequest s"
  by (simp add: pingRequest_def)

lemma attemptConnectionLoop_notFound:
  assumes "quiet env" and "neverStopped env"
  shows "(\<forall>t. \<not> validPeer s (fetch_reply env t (pingRequest s))) \<Longrightarrow> \<not> isStopped s \<Longrightarrow>
    \<exists>cs t ws. attemptConnectionLoop env s =
      (Normal (),
       s\<lparr>state := Listening,
         retries := max (retries s) (maxRetries (config s)),
         events := events s @ failedPasses (retries s + 1) (maxRetries (config s)) @
                     [EvStateChange Listening, EvListening],
         calls := cs, tick := t, writes := ws\<rparr>)"
proof (induction "nat (maxRetries (config s) - retries s)" arbitrary: s rule: less_induct)
  case less
  show ?case
  proof (cases "retries s < maxRetries (config s)")
    case False
    then have "failedPasses (retries s + 1) (maxRetries (config s)) = []"
      by (simp add: failedPasses_empty)
    with False assms(1) show ?thesis
      by (simp add: attemptConnectionLoop_exit enterListening_quiet logged_iff max_def)
  next
    case True
    from less.prems(1) have "\<not> validPeer s (fetch_reply env (tick s) (pingRequest s))"
      by blast
    from attemptConnectionLoop_body_notFound [OF assms this]
    obtain cs t ws where body: "attemptConnectionLoop_body env s =
           (Normal (if maxRetries (config s) \<le> retries s + 1 then Break else Continue),
            s\<lparr>retries := retries s + 1,
              events := events s @ [EvAttempt (retries s + 1), EvRetrying (retries s + 1)],
              calls := cs, tick := t, writes := ws\<rparr>)" (is "_ = (_, ?s1)")
      by blast
    have fp: "failedPasses (retries s + 1) (maxRetries (config s)) =
        [EvAttempt (retries s + 1), EvRetrying (retries s + 1)] @
        failedPasses (retries s + 1 + 1) (maxRetries (config s))"
      using True by (intro failedPasses_rec) simp
    show ?thesis
    proof (cases "maxRetries (config s) \<le> retries s + 1")
      case last: True
      then have "failedPasses (retries s + 1 + 1) (maxRetries (config s)) = []"
        by (simp add: failedPasses_empty)
      with last True body less.prems(2) assms(1) fp show ?thesis
        by (simp add: attemptConnectionLoop_step enterListening_quiet logged_iff max_def)
    next
      case more: False
      have nf: "\<forall>t. \<not> validPeer ?s1 (fetch_reply env t (pingRequest ?s1))"
        using less.prems(1) by (simp add: validPeer_def pingRequest_def)
      have "nat (maxRetries (config ?s1) - retries ?s1) < nat (maxRetries (config s) - retries s)"
        using True by simp
      from less.hyps [OF this nf] less.prems(2)
      obtain cs' t' ws' where "attemptConnectionLoop env ?s1 =
        (Normal (),
         ?s1\<lparr>state := Listening,
           retries := max (retries ?s1) (maxRetries (config ?s1)),
           events := events ?s1 @ failedPasses (retries ?s1 + 1) (maxRetries (config ?s1)) @
                     [EvStateChange Listening, EvListening],
           calls := cs', tick := t', writes := ws'\<rparr>)"
        by auto
      with more True body less.prems(2) fp show ?thesis
        by (simp add: attemptConnectionLoop_step logged_iff max_def)
    qed
  qed
qed

lemma failedPasses_attempts: "length (filter isAttempt (failedPasses i n)) = nat (n - i + 1)"
proof (induction "nat (n - i + 1)" arbitrary: i)
  case 0
  then show ?case by (simp add: failedPasses_empty)
next
  case (Suc k)
  then have "i \<le> n" by simp
  from Suc.hyps(1) [of "i + 1"] Suc.hyps(2) failedPasses_rec [OF this] show ?case
    by simp
qed

lemma failedPasses_retryings: "length (filter isRetrying (failedPasses i n)) = nat (n - i + 1)"
proof (induction "nat (n - i + 1)" arbitrary: i)
  case 0
  then show ?case by (simp add: failedPasses_empty)
next
  case (Suc k)
  then have "i \<le> n" by simp
  from Suc.hyps(1) [of "i + 1"] Suc.hyps(2) failedPasses_rec [OF this] show ?case
    by simp
qed

lemma failedPasses_set:
  "set (failedPasses i n) = (\<Union>k \<in> {i..n}. {EvAttempt k, EvRetrying k})"
  by (auto simp: failedPasses_def)

text \<open>
  C3. For every configured \<^verbatim>\<open>maxRetries\<close> \<open>N\<close>, if every probe attempt returns
  not-found (no listener throws, \<^verbatim>\<open>stop()\<close> is never called), \<^verbatim>\<open>start()\<close> emits
  \<^verbatim>\<open>stateChange searching\<close>, then \<^verbatim>\<open>attempt i\<close> and \<^verbatim>\<open>retrying i\<close> for \<open>i\<close> from 1 to
  \<open>N\<close>, then \<^verbatim>\<open>stateChange listening\<close> and \<^verbatim>\<open>listening\<close>: exactly \<open>N\<close> attempt and
  \<open>N\<close> retrying notifications (none for a negative \<open>N\<close>), a final state listening,
  and never the error state.
\<close>

theorem never_matching_prober:
  assumes "quiet env" and "neverStopped env"
    and "\<forall>t. \<not> validPeer s (fetch_reply env t (pingRequest s))"
  shows "fst (start env s) = Normal () \<and>
         state (snd (start env s)) = Listening \<and>
         newEvents s (snd (start env s)) =
           EvStateChange Searching # failedPasses 1 (maxRetries (config s)) @
             [EvStateChange Listening, EvListening] \<and>
         length (filter isAttempt (newEvents s (snd (start env s)))) =
           nat (maxRetries (config s)) \<and>
         length (filter isRetrying (newEvents s (snd (start env s)))) =
           nat (maxRetries (config s)) \<and>
         EvStateChange Error \<notin> set (newEvents s (snd (start env s)))"
proof -
  let ?s1 = "s\<lparr>isStopped := False, state := Searching,
                writes := writes s @ [(length (events s), Searching)], retries := 0,
                events := events s @ [EvStateChange Searching]\<rparr>"
  have nf: "\<forall>t. \<not> validPeer ?s1 (fetch_reply env t (pingRequest ?s1))"
    using assms(3) by (simp add: validPeer_def pingRequest_def)
  from attemptConnectionLoop_notFound [OF assms(1,2) nf]
  obtain cs t ws where loop: "attemptConnectionLoop env ?s1 =
      (Normal (),
       ?s1\<lparr>state := Listening,
         retries := max (retries ?s1) (maxRetries (config ?s1)),
         events := events ?s1 @ failedPasses (retries ?s1 + 1) (maxRetries (config ?s1)) @
                     [EvStateChange Listening, EvListening],
         calls := cs, tick := t, writes := ws\<rparr>)"
    by auto
  have run: "start env s =
      (Normal (),
       ?s1\<lparr>state := Listening,
         retries := max (retries ?s1) (maxRetries (config ?s1)),
         events := events ?s1 @ failedPasses (retries ?s1 + 1) (maxRetries (config ?s1)) @
                     [EvStateChange Listening, EvListening],
         calls := cs, tick := t, writes := ws\<rparr>)"
    using loop assms(1)
    by (simp add: start_def bind_def modify_def assign_def reading_def emit_quiet
        tryCatch_def ret_def)
  show ?thesis
    by (simp add: run newEvents_def failedPasses_attempts failedPasses_retryings
        failedPasses_set)
qed

theorem never_matching_prober_witness:
  "quiet deadEnv \<and> neverStopped deadEnv \<and>
   (\<forall>t. \<not> validPeer (newSyncManager bareOptions)
           (fetch_reply deadEnv t (pingRequest (newSyncManager bareOptions)))) \<and>
   maxRetries (config (newSyncManager bareOptions)) = 5 \<and>
   fst (start deadEnv (newSyncManager bareOptions)) = Normal () \<and>
   state (snd (start deadEnv (newSyncManager bareOptions))) = Listening \<and>
   newEvents (newSyncManager bareOptions) (snd (start deadEnv (newSyncManager bareOptions))) =
     [EvStateChange Searching,
      EvAttempt 1, EvRetrying 1, EvAttempt 2, EvRetrying 2, EvAttempt 3, EvRetrying 3,
      EvAttempt 4, EvRetrying 4, EvAttempt 5, EvRetrying 5,
      EvStateChange Listening, EvListening]"
proof -
  have q: "quiet deadEnv" and n: "neverStopped deadEnv"
    by (simp_all add: quiet_def neverStopped_def deadEnv_def)
  have nf: "\<forall>t. \<not> validPeer (newSyncManager bareOptions)
           (fetch_reply deadEnv t (pingRequest (newSyncManager bareOptions)))"
    by (simp add: validPeer_def deadEnv_def)
  have m: "maxRetries (config (newSyncManager bareOptions)) = 5"
    by (simp add: newSyncManager_def spread_def defaultConfig_def bareOptions_def Let_def)
  have fp: "failedPasses 1 5 =
     [EvAttempt 1, EvRetrying 1, EvAttempt 2, EvRetrying 2, EvAttempt 3, EvRetrying 3,
      EvAttempt 4, EvRetrying 4, EvAttempt 5, EvRetrying 5]"
    by (simp add: failedPasses_def upto.simps)
  from never_matching_prober [OF q n nf] q n nf m fp show ?thesis
    by simp
qed





















subsection \<open>The signal wait\<close>

lemma truthy_getProp: "getProp body name = Some v \<Longrightarrow> truthy body"
  by (cases body) simp_all

lemma signalPoll_notApproved:
  assumes "quiet env" and "neverStopped env"
    and "\<not> deployApproved (fetch_reply env (tick s) (signalRequest s))"
  shows "signalPoll env s =
           (Normal Continue,
            s\<lparr>events := events s @ map EvError (pollErrors (fetch_reply env (tick s) (signalRequest s))),
              calls := calls s @ [signalRequest s, Sleep (retryIntervalMs (config s))],
              tick := tick s + pollTicks (fetch_reply env (tick s) (signalRequest s))\<rparr>)"
proof (cases "fetch_reply env (tick s) (signalRequest s)")
  case (Inl e)
  with assms(1,2) show ?thesis
    by (simp add: signalPoll_def tryCatch_def bind_def reading_def fetch_def
        ret_def Let_def signalRequest_def suspend_neverStopped emit_quiet sleep_neverStopped
        pollErrors_def pollTicks_def)
next
  case (Inr response)
  show ?thesis
  proof (cases "ok response")
    case False
    with Inr assms(1,2) show ?thesis
      by (simp add: signalPoll_def tryCatch_def bind_def reading_def fetch_def
        ret_def Let_def signalRequest_def suspend_neverStopped emit_quiet sleep_neverStopped
        pollErrors_def pollTicks_def)
  next
    case True
    show ?thesis
    proof (cases "json_body response")
      case (Inl e)
      with Inr True assms(1,2) show ?thesis
        by (simp add: signalPoll_def tryCatch_def bind_def reading_def fetch_def json_def
        ret_def Let_def signalRequest_def suspend_neverStopped emit_quiet sleep_neverStopped
        pollErrors_def pollTicks_def)
    next
      case body: (Inr body)
      from assms(3) Inr True body
      have "\<not> (truthy body \<and> getProp body ''deploy'' = Some (JBool True))"
        by (auto simp: deployApproved_def)
      with Inr True body assms(1,2) show ?thesis
        by (auto simp add: signalPoll_def tryCatch_def bind_def reading_def fetch_def json_def
        ret_def Let_def signalRequest_def suspend_neverStopped emit_quiet sleep_neverStopped
        pollErrors_def pollTicks_def)
    qed
  qed
qed


lemma signalRequest_cong: "options s' = options s \<Longrightarrow> signalRequest s' = signalRequest s"
  by (simp add: signalRequest_def)

lemma waitForDeploySignal_loop_timeout:
  assumes "quiet env" and "neverStopped env"
  shows "(\<forall>t. \<not> deployApproved (fetch_reply env t (signalRequest s))) \<Longrightarrow>
    \<not> isStopped s \<Longrightarrow> polls \<le> maxPolls \<Longrightarrow>
    \<exists>errs t ws. waitForDeploySignal_loop env polls s =
      (Normal (),
       s\<lparr>state := Error,
         events := events s @ map EvError errs @
           [EvDeploySignalTimeout, EvStateChange Error, EvError (JsError timeoutMessage)],
         calls := calls s @
           concat (replicate (maxPolls - polls)
             [signalRequest s, Sleep (retryIntervalMs (config s))]),
         tick := t, writes := ws\<rparr>)"
proof (induction "maxPolls - polls" arbitrary: polls s)
  case 0
  then have "\<not> polls < maxPolls"
    by simp
  then have "waitForDeploySignal_loop env polls s =
      (Normal (),
       s\<lparr>events := events s @ [EvDeploySignalTimeout], state := Error,
         writes := writes s @ [(Suc (length (events s)), Error)],
         events := (events s @ [EvDeploySignalTimeout]) @
           [EvStateChange Error, EvError (JsError timeoutMessage)]\<rparr>)"
    using assms(1)
    by (simp add: waitForDeploySignal_loop_exit bind_def emit_quiet setError_quiet ret_def)
  with 0 show ?case
    by (intro exI [of _ "[]"] exI [of _ "tick s"]
        exI [of _ "writes s @ [(Suc (length (events s)), Error)]"]) simp
next
  case (Suc n)
  let ?r = "fetch_reply env (tick s) (signalRequest s)"
  let ?s1 = "s\<lparr>events := events s @ map EvError (pollErrors ?r),
              calls := calls s @ [signalRequest s, Sleep (retryIntervalMs (config s))],
              tick := tick s + pollTicks ?r\<rparr>"
  from Suc.prems(1) have "\<not> deployApproved ?r"
    by blast
  from signalPoll_notApproved [OF assms this]
  have poll: "signalPoll env s = (Normal Continue, ?s1)" .
  from Suc.hyps(2) have lt: "polls < maxPolls" and n: "n = maxPolls - (polls + 1)"
    by simp_all
  have nf: "\<forall>t. \<not> deployApproved (fetch_reply env t (signalRequest ?s1))"
    using Suc.prems(1) by (simp add: signalRequest_def)
  from Suc.hyps(1) [OF n nf] Suc.prems(2) lt
  obtain errs t ws where rest: "waitForDeploySignal_loop env (polls + 1) ?s1 =
      (Normal (),
       ?s1\<lparr>state := Error,
         events := events ?s1 @ map EvError errs @
           [EvDeploySignalTimeout, EvStateChange Error, EvError (JsError timeoutMessage)],
         calls := calls ?s1 @
           concat (replicate (maxPolls - (polls + 1))
             [signalRequest ?s1, Sleep (retryIntervalMs (config ?s1))]),
         tick := t, writes := ws\<rparr>)"
    by auto
  have rep: "maxPolls - polls = Suc (maxPolls - (polls + 1))"
    using lt by simp
  from poll rest Suc.prems(2) lt show ?case
    by (intro exI [of _ "pollErrors ?r @ errs"] exI [of _ t] exI [of _ ws])
      (simp add: waitForDeploySignal_loop_step rep signalRequest_def)
qed


text \<open>
  C4. If the signal-wait phase starts unstopped and no poll yields an approving
  \<^verbatim>\<open>{ deploy: true }\<close> reply (each poll fails or does not approve; no listener throws,
  \<^verbatim>\<open>stop()\<close> is never called), then it performs 30 polls, each followed by the
  retry-interval delay, emits only \<^verbatim>\<open>error\<close> notifications for the failing polls
  meanwhile, then exactly one \<^verbatim>\<open>deploySignalTimeout\<close>, and ends in the error state with
  the time-out error as the cause.
\<close>

theorem signal_wait_timeout:
  assumes "quiet env" and "neverStopped env" and "\<not> isStopped s"
    and "\<forall>t. \<not> deployApproved (fetch_reply env t (signalRequest s))"
  shows "fst (waitForDeploySignal env s) = Normal () \<and>
         state (snd (waitForDeploySignal env s)) = Error \<and>
         (\<exists>errs. newEvents s (snd (waitForDeploySignal env s)) =
            [EvWaitingDeploySignal, EvStateChange Deploying] @ map EvError errs @
            [EvDeploySignalTimeout, EvStateChange Error, EvError (JsError timeoutMessage)]) \<and>
         length (filter (\<lambda>ev. ev = EvDeploySignalTimeout)
           (newEvents s (snd (waitForDeploySignal env s)))) = 1 \<and>
         newCalls s (snd (waitForDeploySignal env s)) =
           concat (replicate 30 [signalRequest s, Sleep (retryIntervalMs (config s))])"
proof -
  let ?s1 = "s\<lparr>events := events s @ [EvWaitingDeploySignal], state := Deploying,
               writes := writes s @ [(Suc (length (events s)), Deploying)],
               events := (events s @ [EvWaitingDeploySignal]) @ [EvStateChange Deploying]\<rparr>"
  have nf: "\<forall>t. \<not> deployApproved (fetch_reply env t (signalRequest ?s1))"
    using assms(4) by (simp add: signalRequest_def)
  from waitForDeploySignal_loop_timeout [OF assms(1,2) nf, of 0] assms(3)
  obtain errs t ws where loop: "waitForDeploySignal_loop env 0 ?s1 =
      (Normal (),
       ?s1\<lparr>state := Error,
         events := events ?s1 @ map EvError errs @
           [EvDeploySignalTimeout, EvStateChange Error, EvError (JsError timeoutMessage)],
         calls := calls ?s1 @
           concat (replicate (maxPolls - 0)
             [signalRequest ?s1, Sleep (retryIntervalMs (config ?s1))]),
         tick := t, writes := ws\<rparr>)"
    by auto
  have run: "waitForDeploySignal env s =
      (Normal (),
       ?s1\<lparr>state := Error,
         events := events ?s1 @ map EvError errs @
           [EvDeploySignalTimeout, EvStateChange Error, EvError (JsError timeoutMessage)],
         calls := calls ?s1 @
           concat (replicate (maxPolls - 0)
             [signalRequest ?s1, Sleep (retryIntervalMs (config ?s1))]),
         tick := t, writes := ws\<rparr>)"
    using loop assms(1)
    by (simp add: waitForDeploySignal_def bind_def modify_def assign_def reading_def
        emit_quiet ret_def)
  have count: "filter (\<lambda>ev. ev = EvDeploySignalTimeout) (map EvError errs) = []"
    by (induction errs) simp_all
  show ?thesis
    by (simp add: run newEvents_def newCalls_def count maxPolls_def signalRequest_def) blast
qed

theorem signal_wait_timeout_witness:
  "quiet deadEnv \<and> neverStopped deadEnv \<and> \<not> isStopped (newSyncManager bareOptions) \<and>
   (\<forall>t. \<not> deployApproved
           (fetch_reply deadEnv t (signalRequest (newSyncManager bareOptions)))) \<and>
   fst (waitForDeploySignal deadEnv (newSyncManager bareOptions)) = Normal () \<and>
   state (snd (waitForDeploySignal deadEnv (newSyncManager bareOptions))) = Error \<and>
   length (filter (\<lambda>ev. ev = EvDeploySignalTimeout)
     (newEvents (newSyncManager bareOptions)
        (snd (waitForDeploySignal deadEnv (newSyncManager bareOptions))))) = 1"
proof -
  have q: "quiet deadEnv" and n: "neverStopped deadEnv"
    by (simp_all add: quiet_def neverStopped_def deadEnv_def)
  have st: "\<not> isStopped (newSyncManager bareOptions)"
    by (simp add: newSyncManager_def Let_def)
  have nf: "\<forall>t. \<not> deployApproved
           (fetch_reply deadEnv t (signalRequest (newSyncManager bareOptions)))"
    by (simp add: deployApproved_def deadEnv_def)
  from signal_wait_timeout [OF q n st nf] q n st nf show ?thesis
    by blast
qed

subsection \<open>The deployment\<close>

lemma downloadFile_delivered:
  assumes "quiet env" and "neverStopped env"
    and "delivers env content (deployPath (config s)) u"
  shows "downloadFile env u s =
           (Normal (),
            s\<lparr>events := events s @ artifactEvents env u,
              calls := calls s @ artifactCalls env content (deployPath (config s)) u,
              tick := tick s + 3\<rparr>)"
proof -
  from assms(3) obtain r where r: "fetch_reply env (tick s) (artifactRequest u) = Inr r"
    "ok r" "text_body r = Inr (content u)"
    unfolding delivers_def by blast
  from assms(3) have w: "fs_reply env t
      (WriteFile (resolve env (deployPath (config s)) (basename env u)) (content u)) = None" for t
    unfolding delivers_def by blast
  from r w assms(1,2) show ?thesis
    by (simp add: downloadFile_def bind_def reading_def emit_quiet fetch_def readText_def
        fsCall_def suspend_neverStopped Let_def ret_def artifactRequest_def artifactCalls_def
        artifactEvents_def)
qed

lemma downloadFile_refused:
  assumes "quiet env" and "neverStopped env" and "refuses env u"
  shows "downloadFile env u s =
           (Throws (JsError (''No se pudo descargar archivo: '' @ u)),
            s\<lparr>events := events s @ [EvDownloadStart u],
              calls := calls s @ [artifactRequest u],
              tick := tick s + 1\<rparr>)"
proof -
  from assms(3) obtain r where r: "fetch_reply env (tick s) (artifactRequest u) = Inr r" "\<not> ok r"
    unfolding refuses_def by blast
  from r assms(1,2) show ?thesis
    by (simp add: downloadFile_def bind_def reading_def emit_quiet fetch_def
        suspend_neverStopped Let_def throw_def artifactRequest_def)
qed

lemma downloadFiles_delivered:
  assumes "quiet env" and "neverStopped env"
  shows "\<forall>u \<in> set us. delivers env content (deployPath (config s)) u \<Longrightarrow>
    downloadFiles env us s =
      (Normal (),
       s\<lparr>events := events s @ concat (map (artifactEvents env) us),
         calls := calls s @
           concat (map (artifactCalls env content (deployPath (config s))) us),
         tick := tick s + 3 * length us\<rparr>)"
proof (induction us arbitrary: s)
  case Nil
  then show ?case
    by (simp add: ret_def)
next
  case (Cons u us)
  let ?s1 = "s\<lparr>events := events s @ artifactEvents env u,
              calls := calls s @ artifactCalls env content (deployPath (config s)) u,
              tick := tick s + 3\<rparr>"
  from Cons.prems have "delivers env content (deployPath (config s)) u"
    by simp
  from downloadFile_delivered [OF assms this]
  have one: "downloadFile env u s = (Normal (), ?s1)" .
  from Cons.prems have "\<forall>v \<in> set us. delivers env content (deployPath (config ?s1)) v"
    by simp
  from Cons.IH [OF this] one show ?case
    by (simp add: bind_def)
qed

lemma downloadFiles_refused:
  assumes "quiet env" and "neverStopped env" and "refuses env bad"
  shows "\<forall>u \<in> set pre. delivers env content (deployPath (config s)) u \<Longrightarrow>
    downloadFiles env (pre @ bad # post) s =
      (Throws (JsError (''No se pudo descargar archivo: '' @ bad)),
       s\<lparr>events := events s @ concat (map (artifactEvents env) pre) @ [EvDownloadStart bad],
         calls := calls s @
           concat (map (artifactCalls env content (deployPath (config s))) pre) @
           [artifactRequest bad],
         tick := tick s + 3 * length pre + 1\<rparr>)"
proof (induction pre arbitrary: s)
  case Nil
  from downloadFile_refused [OF assms] show ?case
    by (simp add: bind_def)
next
  case (Cons u pre)
  let ?s1 = "s\<lparr>events := events s @ artifactEvents env u,
              calls := calls s @ artifactCalls env content (deployPath (config s)) u,
              tick := tick s + 3\<rparr>"
  from Cons.prems have "delivers env content (deployPath (config s)) u"
    by simp
  from downloadFile_delivered [OF assms(1,2) this]
  have one: "downloadFile env u s = (Normal (), ?s1)" .
  from Cons.prems have "\<forall>v \<in> set pre. delivers env content (deployPath (config ?s1)) v"
    by simp
  from Cons.IH [OF this] one show ?case
    by (simp add: bind_def)
qed

text \<open>
  C6. The deploy sequence fetches and writes the configured artifact URLs in their
  listed order. For every index \<open>i\<close>: if the artifacts before \<open>i\<close> are delivered and
  written and the request for artifact \<open>i\<close> is answered with a non-success response,
  then the calls of the deployment are the creation of the directory, the fetch and the
  write of each artifact before \<open>i\<close> in order, and the fetch of artifact \<open>i\<close>, and no
  other: artifact \<open>i + 1\<close> is not attempted and no process is launched; the machine
  ends in the error state with the download error as the cause. If every artifact is
  delivered, each is fetched and written in the listed order and then the command is
  launched. (The directory can be created, no listener throws, \<^verbatim>\<open>stop()\<close> is never
  called.)
\<close>

theorem deployBots_in_order:
  assumes "quiet env" and "neverStopped env"
    and "\<forall>t. fs_reply env t (Mkdir (deployPath (config s))) = None"
  shows "(i < length (botsFilesUrls (config s)) \<and>
          (\<forall>u \<in> set (take i (botsFilesUrls (config s))).
             delivers env content (deployPath (config s)) u) \<and>
          refuses env (botsFilesUrls (config s) ! i) \<longrightarrow>
          fst (deployBots env s) = Normal () \<and>
          state (snd (deployBots env s)) = Error \<and>
          newCalls s (snd (deployBots env s)) =
            Mkdir (deployPath (config s)) #
            concat (map (artifactCalls env content (deployPath (config s)))
              (take i (botsFilesUrls (config s)))) @
            [artifactRequest (botsFilesUrls (config s) ! i)] \<and>
          newEvents s (snd (deployBots env s)) =
            EvDeployStart #
            concat (map (artifactEvents env) (take i (botsFilesUrls (config s)))) @
            [EvDownloadStart (botsFilesUrls (config s) ! i), EvStateChange Error,
             EvError (JsError (''No se pudo descargar archivo: '' @
               botsFilesUrls (config s) ! i))]) \<and>
         ((\<forall>u \<in> set (botsFilesUrls (config s)).
             delivers env content (deployPath (config s)) u) \<longrightarrow>
          newCalls s (snd (deployBots env s)) =
            Mkdir (deployPath (config s)) #
            concat (map (artifactCalls env content (deployPath (config s)))
              (botsFilesUrls (config s))) @
            [Exec (botsExecCommand (config s)) (deployPath (config s))])"
proof (intro conjI impI)
  let ?urls = "botsFilesUrls (config s)"
  let ?s1 = "s\<lparr>events := events s @ [EvDeployStart],
              calls := calls s @ [Mkdir (deployPath (config s))], tick := Suc (tick s)\<rparr>"
  have start: "block [
          emit env EvDeployStart,
          reading (\<lambda>s. fsCall env (Mkdir (deployPath (config s)))),
          reading (\<lambda>s. downloadFiles env (botsFilesUrls (config s))),
          emit env EvDeployFilesWritten,
          reading (\<lambda>s. execCommand env (botsExecCommand (config s)) (deployPath (config s))),
          emit env EvDeploySuccess] s =
      bind (downloadFiles env ?urls)
        (\<lambda>_. block [
          emit env EvDeployFilesWritten,
          reading (\<lambda>s. execCommand env (botsExecCommand (config s)) (deployPath (config s))),
          emit env EvDeploySuccess]) ?s1"
    using assms by (simp add: bind_def reading_def emit_quiet fsCall_def suspend_neverStopped)
  {
    assume a: "i < length ?urls \<and>
          (\<forall>u \<in> set (take i ?urls). delivers env content (deployPath (config s)) u) \<and>
          refuses env (?urls ! i)"
    then have split: "?urls = take i ?urls @ ?urls ! i # drop (Suc i) ?urls"
      by (simp add: id_take_nth_drop)
    from a have pre: "\<forall>u \<in> set (take i ?urls). delivers env content (deployPath (config ?s1)) u"
      by simp
    from a have bad: "refuses env (?urls ! i)"
      by simp
    have "downloadFiles env ?urls ?s1 =
      (Throws (JsError (''No se pudo descargar archivo: '' @ ?urls ! i)),
       ?s1\<lparr>events := events ?s1 @ concat (map (artifactEvents env) (take i ?urls)) @
           [EvDownloadStart (?urls ! i)],
         calls := calls ?s1 @
           concat (map (artifactCalls env content (deployPath (config ?s1))) (take i ?urls)) @
           [artifactRequest (?urls ! i)],
         tick := tick ?s1 + 3 * length (take i ?urls) + 1\<rparr>)"
      using downloadFiles_refused [OF assms(1,2) bad pre, of "drop (Suc i) ?urls"] split
      by simp
    then have run: "deployBots env s =
      (Normal (),
       ?s1\<lparr>events := events ?s1 @ concat (map (artifactEvents env) (take i ?urls)) @
           [EvDownloadStart (?urls ! i)],
         calls := calls ?s1 @
           concat (map (artifactCalls env content (deployPath (config ?s1))) (take i ?urls)) @
           [artifactRequest (?urls ! i)],
         tick := tick ?s1 + 3 * length (take i ?urls) + 1,
         state := Error,
         writes := writes s @ [(Suc (length (events s) + length
           (concat (map (artifactEvents env) (take i ?urls))) + 1), Error)],
         events := (events ?s1 @ concat (map (artifactEvents env) (take i ?urls)) @
           [EvDownloadStart (?urls ! i)]) @
           [EvStateChange Error,
            EvError (JsError (''No se pudo descargar archivo: '' @ ?urls ! i))]\<rparr>)"
      using assms(1) unfolding deployBots_def tryCatch_def start
      by (simp add: bind_def setError_quiet)
    show "fst (deployBots env s) = Normal ()"
      and "state (snd (deployBots env s)) = Error"
      and "newCalls s (snd (deployBots env s)) =
            Mkdir (deployPath (config s)) #
            concat (map (artifactCalls env content (deployPath (config s))) (take i ?urls)) @
            [artifactRequest (?urls ! i)]"
      and "newEvents s (snd (deployBots env s)) =
            EvDeployStart # concat (map (artifactEvents env) (take i ?urls)) @
            [EvDownloadStart (?urls ! i), EvStateChange Error,
             EvError (JsError (''No se pudo descargar archivo: '' @ ?urls ! i))]"
      by (simp_all add: run newCalls_def newEvents_def)
  }
  {
    assume "\<forall>u \<in> set ?urls. delivers env content (deployPath (config s)) u"
    then have "\<forall>u \<in> set ?urls. delivers env content (deployPath (config ?s1)) u"
      by simp
    from downloadFiles_delivered [OF assms(1,2) this]
    have dl: "downloadFiles env ?urls ?s1 =
      (Normal (),
       ?s1\<lparr>events := events ?s1 @ concat (map (artifactEvents env) ?urls),
         calls := calls ?s1 @
           concat (map (artifactCalls env content (deployPath (config ?s1))) ?urls),
         tick := tick ?s1 + 3 * length ?urls\<rparr>)" .
    have "calls (snd (deployBots env s)) =
        calls s @ Mkdir (deployPath (config s)) #
            concat (map (artifactCalls env content (deployPath (config s))) ?urls) @
            [Exec (botsExecCommand (config s)) (deployPath (config s))]"
      using assms(1,2) dl unfolding deployBots_def tryCatch_def start
      by (simp add: bind_def reading_def setError_quiet
          emit_quiet execCommand_def awaitExec_def inCallback_def suspend_neverStopped
          throw_def ret_def Let_def split: prod.splits option.splits)
    then show "newCalls s (snd (deployBots env s)) =
            Mkdir (deployPath (config s)) #
            concat (map (artifactCalls env content (deployPath (config s))) ?urls) @
            [Exec (botsExecCommand (config s)) (deployPath (config s))]"
      by (simp add: newCalls_def)
  }
qed

lemmas artifact_defs =
  artifactOptions_def scriptResponse_def partialHostEnv_def fullHostEnv_def
  artifactRequest_def artifactCalls_def artifactEvents_def delivers_def refuses_def

theorem deployBots_in_order_witness:
  "quiet partialHostEnv \<and> neverStopped partialHostEnv \<and>
   (\<forall>t. fs_reply partialHostEnv t
          (Mkdir (deployPath (config (newSyncManager artifactOptions)))) = None) \<and>
   botsFilesUrls (config (newSyncManager artifactOptions)) =
     [''https://host/bots/bot.js'', ''https://host/bots/lib.js''] \<and>
   delivers partialHostEnv (\<lambda>u. ''run()'') ''./deployedBots'' ''https://host/bots/bot.js'' \<and>
   refuses partialHostEnv ''https://host/bots/lib.js'' \<and>
   fst (deployBots partialHostEnv (newSyncManager artifactOptions)) = Normal () \<and>
   state (snd (deployBots partialHostEnv (newSyncManager artifactOptions))) = Error \<and>
   newCalls (newSyncManager artifactOptions)
     (snd (deployBots partialHostEnv (newSyncManager artifactOptions))) =
     [Mkdir ''./deployedBots'',
      Fetch ''GET'' ''https://host/bots/bot.js'' [] None,
      WriteFile ''./deployedBots/bot.js'' ''run()'',
      Fetch ''GET'' ''https://host/bots/lib.js'' [] None] \<and>
   quiet fullHostEnv \<and> neverStopped fullHostEnv \<and>
   (\<forall>t. fs_reply fullHostEnv t
          (Mkdir (deployPath (config (newSyncManager artifactOptions)))) = None) \<and>
   delivers fullHostEnv (\<lambda>u. ''run()'') ''./deployedBots'' ''https://host/bots/bot.js'' \<and>
   delivers fullHostEnv (\<lambda>u. ''run()'') ''./deployedBots'' ''https://host/bots/lib.js'' \<and>
   newCalls (newSyncManager artifactOptions)
     (snd (deployBots fullHostEnv (newSyncManager artifactOptions))) =
     [Mkdir ''./deployedBots'',
      Fetch ''GET'' ''https://host/bots/bot.js'' [] None,
      WriteFile ''./deployedBots/bot.js'' ''run()'',
      Fetch ''GET'' ''https://host/bots/lib.js'' [] None,
      WriteFile ''./deployedBots/lib.js'' ''run()'',
      Exec ''node bot.js'' ''./deployedBots'']"
proof -
  let ?s = "newSyncManager artifactOptions"
  have cfg: "botsFilesUrls (config ?s) = [''https://host/bots/bot.js'', ''https://host/bots/lib.js'']"
    "deployPath (config ?s) = ''./deployedBots''"
    "botsExecCommand (config ?s) = ''node bot.js''"
    by (simp_all add: newSyncManager_def spread_def defaultConfig_def Let_def bareOptions_def
        artifactOptions_def)
  have q: "quiet partialHostEnv" "neverStopped partialHostEnv"
    "quiet fullHostEnv" "neverStopped fullHostEnv"
    by (simp_all add: quiet_def neverStopped_def deadEnv_def partialHostEnv_def fullHostEnv_def)
  have mk: "\<forall>t. fs_reply partialHostEnv t (Mkdir (deployPath (config ?s))) = None"
    "\<forall>t. fs_reply fullHostEnv t (Mkdir (deployPath (config ?s))) = None"
    by (simp_all add: deadEnv_def partialHostEnv_def fullHostEnv_def)
  have d1: "delivers partialHostEnv (\<lambda>u. ''run()'') ''./deployedBots'' ''https://host/bots/bot.js''"
    and r2: "refuses partialHostEnv ''https://host/bots/lib.js''"
    and d3: "delivers fullHostEnv (\<lambda>u. ''run()'') ''./deployedBots'' ''https://host/bots/bot.js''"
    and d4: "delivers fullHostEnv (\<lambda>u. ''run()'') ''./deployedBots'' ''https://host/bots/lib.js''"
    by (simp_all add: artifact_defs deadEnv_def failedResponse_def)
  have names: "basename partialHostEnv ''https://host/bots/bot.js'' = ''bot.js''"
    "basename fullHostEnv ''https://host/bots/bot.js'' = ''bot.js''"
    "basename fullHostEnv ''https://host/bots/lib.js'' = ''lib.js''"
    "resolve partialHostEnv = (\<lambda>dir f. dir @ ''/'' @ f)"
    "resolve fullHostEnv = (\<lambda>dir f. dir @ ''/'' @ f)"
    by (simp_all add: deadEnv_def partialHostEnv_def fullHostEnv_def)
  from deployBots_in_order [OF q(1,2) mk(1), of 1 "\<lambda>u. ''run()''"] d1 r2
  have part1: "fst (deployBots partialHostEnv ?s) = Normal ()"
    "state (snd (deployBots partialHostEnv ?s)) = Error"
    "newCalls ?s (snd (deployBots partialHostEnv ?s)) =
     [Mkdir ''./deployedBots'',
      Fetch ''GET'' ''https://host/bots/bot.js'' [] None,
      WriteFile ''./deployedBots/bot.js'' ''run()'',
      Fetch ''GET'' ''https://host/bots/lib.js'' [] None]"
    by (simp_all add: cfg names artifactCalls_def artifactRequest_def)
  from deployBots_in_order [OF q(3,4) mk(2), of 1 "\<lambda>u. ''run()''"] d3 d4
  have part2: "newCalls ?s (snd (deployBots fullHostEnv ?s)) =
     [Mkdir ''./deployedBots'',
      Fetch ''GET'' ''https://host/bots/bot.js'' [] None,
      WriteFile ''./deployedBots/bot.js'' ''run()'',
      Fetch ''GET'' ''https://host/bots/lib.js'' [] None,
      WriteFile ''./deployedBots/lib.js'' ''run()'',
      Exec ''node bot.js'' ''./deployedBots'']"
    by (simp add: cfg names artifactCalls_def artifactRequest_def)
  from q mk cfg(1) d1 r2 d3 d4 part1 part2 show ?thesis
    by simp
qed

subsection \<open>State changes and their notifications\<close>

lemma announced_append:
  "announced (evs @ [ev]) st =
     (case ev of EvStateChange x \<Rightarrow> x | _ \<Rightarrow> announced evs st)"
  by (induction evs st rule: announced.induct) (simp_all split: event.splits)

lemma stateChanges_append:
  "stateChanges n (evs @ [ev]) =
     stateChanges n evs @
       (case ev of EvStateChange x \<Rightarrow> [(n + length evs, x)] | _ \<Rightarrow> [])"
  by (induction n evs rule: stateChanges.induct) (simp_all split: event.splits)

lemma tracked_refl: "tracked s s"
  by (simp add: tracked_def)

lemma tracked_logged [simp]:
  "tracked s0 (s\<lparr>calls := cs\<rparr>) = tracked s0 s"
  "tracked s0 (s\<lparr>tick := t\<rparr>) = tracked s0 s"
  "tracked s0 (s\<lparr>retries := r\<rparr>) = tracked s0 s"
  "tracked s0 (s\<lparr>isStopped := b\<rparr>) = tracked s0 s"
  by (simp_all add: tracked_def)

lemma tracked_announce:
  assumes "tracked s0 s"
  shows "tracked s0 (s\<lparr>state := x, writes := writes s @ [(length (events s), x)],
                        events := events s @ [EvStateChange x]\<rparr>)"
proof -
  from assms obtain new where new: "events s = events s0 @ new"
    "writes s = writes s0 @ stateChanges (length (events s0)) new"
    by (auto simp: tracked_def)
  then have "events s @ [EvStateChange x] = events s0 @ (new @ [EvStateChange x]) \<and>
      x = announced (new @ [EvStateChange x]) (state s0) \<and>
      writes s @ [(length (events s), x)] =
        writes s0 @ stateChanges (length (events s0)) (new @ [EvStateChange x])"
    by (simp add: announced_append stateChanges_append)
  with new(1) show ?thesis
    unfolding tracked_def by (intro exI [of _ "new @ [EvStateChange x]"]) simp
qed

lemma tracked_other:
  assumes "\<not> isStateChange ev" and "tracked s0 s"
  shows "tracked s0 (s\<lparr>events := events s @ [ev]\<rparr>)"
proof -
  from assms(2) obtain new
    where new: "events s = events s0 @ new" "state s = announced new (state s0)"
      "writes s = writes s0 @ stateChanges (length (events s0)) new"
    by (auto simp: tracked_def)
  from assms(1) have "announced (new @ [ev]) (state s0) = announced new (state s0)"
    and "stateChanges (length (events s0)) (new @ [ev]) =
         stateChanges (length (events s0)) new"
    by (cases ev; simp add: announced_append stateChanges_append)+
  with new show ?thesis
    unfolding tracked_def by (intro exI [of _ "new @ [ev]"]) simp
qed

text \<open>An assignment to the state followed by its notification.\<close>

lemma tracked_setState:
  assumes "preserves (tracked s0) (block ms)"
  shows "preserves (tracked s0)
           (block (assign x # reading (\<lambda>s. emit env (EvStateChange (state s))) # ms))"
proof -
  have "tracked s0 (snd (block (assign x #
          reading (\<lambda>s. emit env (EvStateChange (state s))) # ms) s))"
    if "tracked s0 s" for s
    using preservesD [OF assms tracked_announce [OF that, of x]] tracked_announce [OF that, of x]
    by (simp add: bind_def modify_def assign_def reading_def emit_def Let_def
        split: option.splits)
  then show ?thesis
    by (simp add: preserves_def)
qed

lemma tracked_stop: "preserves (tracked s0) (stop env)"
  unfolding stop_def
  by (intro preserves_block_Cons tracked_setState preserves_block_Nil preserves_modify) simp

lemma tracked_ghostStable: "ghostStable env (tracked s0)"
  by (simp add: ghostStable_def tracked_stop)

lemma tracked_setError: "preserves (tracked s0) (setError env e)"
  unfolding setError_def
  by (intro tracked_setState preserves_block_Cons preserves_block_Nil preserves_emit)
    (simp add: tracked_other)

lemma tracked_enterListening: "preserves (tracked s0) (enterListening env)"
  unfolding enterListening_def
  by (intro tracked_setState preserves_block_Cons preserves_block_Nil preserves_emit)
    (simp add: tracked_other)

lemmas tracked_rules =
  preserves_ret preserves_throw preserves_modify preserves_bind preserves_tryCatch
  preserves_inCallback preserves_block_Nil preserves_block_Cons preserves_reading
  preserves_if preserves_case_prod preserves_case_option preserves_emit preserves_fetch
  preserves_json preserves_readText preserves_fsCall preserves_sleep preserves_awaitExec
  preserves_downloadFiles preserves_waitForDeploySignal_loop

lemma tracked_execCommand: "preserves (tracked s0) (execCommand env cmd cwd)"
  unfolding execCommand_def
  by (intro tracked_rules) (simp_all add: tracked_ghostStable tracked_other)

lemma tracked_downloadFile: "preserves (tracked s0) (downloadFile env u)"
  unfolding downloadFile_def Let_def
  by (intro tracked_rules) (simp_all add: tracked_ghostStable tracked_other)

lemma tracked_deployBots: "preserves (tracked s0) (deployBots env)"
  unfolding deployBots_def
  by (intro tracked_rules tracked_downloadFile tracked_execCommand tracked_setError)
    (simp_all add: tracked_ghostStable tracked_other)

lemma tracked_tryConnectToGemelo: "preserves (tracked s0) (tryConnectToGemelo env)"
  unfolding tryConnectToGemelo_def
  by (intro tracked_rules) (simp_all add: tracked_ghostStable tracked_other)

lemma tracked_signalPoll: "preserves (tracked s0) (signalPoll env)"
  unfolding signalPoll_def
  by (intro tracked_rules tracked_deployBots)
    (simp_all add: tracked_ghostStable tracked_other)

lemma tracked_waitForDeploySignal: "preserves (tracked s0) (waitForDeploySignal env)"
  unfolding waitForDeploySignal_def
  by (intro preserves_block_Cons [of _ "emit env EvWaitingDeploySignal"] tracked_setState
      tracked_rules tracked_signalPoll tracked_setError)
    (simp_all add: tracked_other)

lemma tracked_catch: "preserves (tracked s0) (attemptConnectionLoop_catch env e)"
  unfolding attemptConnectionLoop_catch_def
  by (intro tracked_rules tracked_setError) (simp_all add: tracked_ghostStable)

lemma tracked_body: "preserves (tracked s0) (attemptConnectionLoop_body env)"
  unfolding attemptConnectionLoop_body_def attemptConnectionLoop_try_def
  by (intro preserves_bind preserves_tryCatch preserves_if preserves_reading preserves_ret
      tracked_setState preserves_block_Cons preserves_block_Nil preserves_modify
      preserves_emit preserves_sleep
      tracked_tryConnectToGemelo tracked_waitForDeploySignal tracked_catch)
    (simp_all add: tracked_ghostStable tracked_other)

lemma preserves_attemptConnectionLoop_aux:
  "preserves I (attemptConnectionLoop_body env) \<Longrightarrow> preserves I (enterListening env) \<Longrightarrow>
   I s \<Longrightarrow> I (snd (attemptConnectionLoop env s))"
proof (induction env s rule: attemptConnectionLoop.induct)
  case (1 env s)
  note body = "1.prems"(1) and exit = "1.prems"(2) and I = "1.prems"(3)
  show ?case
  proof (cases "\<not> isStopped s \<and> retries s < maxRetries (config s)")
    case False
    with preservesD [OF exit I] show ?thesis
      by (simp add: attemptConnectionLoop_exit)
  next
    case True
    obtain r s' where eq: "attemptConnectionLoop_body env s = (r, s')"
      by (cases "attemptConnectionLoop_body env s")
    have s': "I s'"
      using preservesD [OF body I] eq by simp
    show ?thesis
    proof (cases "r = Normal Continue")
      case c: True
      from "1.IH" [OF True eq [symmetric] _ _ body exit s'] c
      have "I (snd (attemptConnectionLoop env s'))"
        by simp
      with True eq c show ?thesis
        by (simp add: attemptConnectionLoop_step)
    next
      case False
      with eq s' True preservesD [OF exit s'] show ?thesis
        by (simp add: attemptConnectionLoop_step split: outcome.splits ctl.splits)
    qed
  qed
qed

lemma preserves_attemptConnectionLoop:
  "preserves I (attemptConnectionLoop_body env) \<Longrightarrow> preserves I (enterListening env) \<Longrightarrow>
   preserves I (attemptConnectionLoop env)"
  using preserves_attemptConnectionLoop_aux [of I env] by (simp add: preserves_def)

lemma tracked_attemptConnectionLoop: "preserves (tracked s0) (attemptConnectionLoop env)"
  by (intro preserves_attemptConnectionLoop tracked_body tracked_enterListening)

lemma tracked_start: "preserves (tracked s0) (start env)"
proof -
  have rest: "preserves (tracked s0)
      (block [tryCatch (attemptConnectionLoop env) (\<lambda>error. setError env error)])"
    by (intro preserves_block_Cons preserves_block_Nil preserves_tryCatch
        tracked_attemptConnectionLoop tracked_setError)
  have "tracked s0 (snd (start env s))" if "tracked s0 s" for s
  proof -
    have "tracked s0 (s\<lparr>isStopped := False, state := Searching,
        writes := writes s @ [(length (events s), Searching)], retries := 0,
        events := events s @ [EvStateChange Searching]\<rparr>)"
      using tracked_announce [OF that, of Searching] by (simp add: tracked_def)
    with preservesD [OF rest this] show ?thesis
      by (simp add: start_def bind_def modify_def assign_def reading_def emit_def Let_def
          split: option.splits)
  qed
  then show ?thesis
    by (simp add: preserves_def)
qed

lemma tracked_wakeUpGemelo: "preserves (tracked s0) (wakeUpGemelo env)"
  unfolding wakeUpGemelo_def Let_def
  by (intro tracked_rules) (simp_all add: tracked_ghostStable tracked_other)

lemma tracked_changesAnnounced:
  assumes "preserves (tracked s) m"
  shows "changesAnnounced s (snd (m s))"
  using preservesD [OF assms tracked_refl]
  by (auto simp: tracked_def changesAnnounced_def newEvents_def newWrites_def)

text \<open>
  C7. Every assignment of a new value to the state emits the \<^verbatim>\<open>stateChange\<close>
  notification that carries that value, and no operation changes the state without it.
  Every assignment \<^verbatim>\<open>this.state = x\<close> is logged together with the number of
  notifications emitted before it. Whatever the collaborators and the listeners do and
  whenever \<^verbatim>\<open>stop()\<close> is called meanwhile, for each method of the class: the assignments
  logged during a call are exactly the \<^verbatim>\<open>stateChange\<close> notifications emitted during the
  call, each at the position where the assignment was made and carrying the assigned
  state (so the first notification after an assignment is its \<^verbatim>\<open>stateChange\<close>), and the
  state after the call is the one carried by the last of them (the state before the
  call if there is none). A new manager has the initial state idle and has made no
  assignment.
\<close>

theorem state_changes_are_announced:
  "changesAnnounced s (snd (start env s)) \<and>
   changesAnnounced s (snd (stop env s)) \<and>
   changesAnnounced s (snd (wakeUpGemelo env s)) \<and>
   changesAnnounced s (snd (attemptConnectionLoop env s)) \<and>
   changesAnnounced s (snd (waitForDeploySignal env s)) \<and>
   changesAnnounced s (snd (deployBots env s)) \<and>
   changesAnnounced s (snd (tryConnectToGemelo env s)) \<and>
   changesAnnounced s (snd (setError env e s)) \<and>
   state (newSyncManager opts) = Idle \<and> writes (newSyncManager opts) = [] \<and>
   events (newSyncManager opts) = []"
  by (intro conjI tracked_changesAnnounced tracked_start tracked_stop tracked_wakeUpGemelo
      tracked_attemptConnectionLoop tracked_waitForDeploySignal tracked_deployBots
      tracked_tryConnectToGemelo tracked_setError)
    (simp_all add: newSyncManager_def Let_def)

text \<open>
  A run in which the twin answers and \<^verbatim>\<open>stop()\<close> is called during the first signal
  poll: the five assignments and the five \<^verbatim>\<open>stateChange\<close> notifications, at the
  positions 0, 3, 6, 7 and 9 of the eleven notifications.
\<close>

theorem state_changes_are_announced_witness:
  "changesAnnounced (newSyncManager bareOptions)
     (snd (start (peerEnv\<lparr>stops := (\<lambda>t. t = 2)\<rparr>) (newSyncManager bareOptions))) \<and>
   writes (snd (start (peerEnv\<lparr>stops := (\<lambda>t. t = 2)\<rparr>) (newSyncManager bareOptions))) =
     [(0, Searching), (3, Connected), (6, Deploying), (7, Idle), (9, Error)] \<and>
   stateChanges 0
     (events (snd (start (peerEnv\<lparr>stops := (\<lambda>t. t = 2)\<rparr>) (newSyncManager bareOptions)))) =
     [(0, Searching), (3, Connected), (6, Deploying), (7, Idle), (9, Error)] \<and>
   length (events (snd (start (peerEnv\<lparr>stops := (\<lambda>t. t = 2)\<rparr>)
     (newSyncManager bareOptions)))) = 11"
proof -
  have "writes (snd (start (peerEnv\<lparr>stops := (\<lambda>t. t = 2)\<rparr>) (newSyncManager bareOptions))) =
     [(0, Searching), (3, Connected), (6, Deploying), (7, Idle), (9, Error)]"
    and "events (snd (start (peerEnv\<lparr>stops := (\<lambda>t. t = 2)\<rparr>) (newSyncManager bareOptions))) =
     [EvStateChange Searching, EvAttempt 1, EvGemeloFound ''other'',
      EvStateChange Connected, EvConnected, EvWaitingDeploySignal,
      EvStateChange Deploying, EvStateChange Idle, EvDeploySignalTimeout,
      EvStateChange Error, EvError (JsError timeoutMessage)]"
    by (simp_all add: run_defs attemptConnectionLoop.simps waitForDeploySignal_loop.simps
        fixture_defs maxPolls_def isSyncData_def)
  with state_changes_are_announced
    [of "newSyncManager bareOptions" "peerEnv\<lparr>stops := (\<lambda>t. t = 2)\<rparr>"]
  show ?thesis
    by simp
qed

subsection \<open>Failures of the deployment\<close>

named_theorems settle \<open>rules that decompose a goal about settling\<close>

lemma settles_ret [settle]: "settles (ret v)"
  by (simp add: settles_def ret_def)

lemma settles_throw [settle]: "settles (throw e)"
  by (simp add: settles_def throw_def)

lemma settles_modify [settle]: "settles (modify f)"
  by (simp add: settles_def modify_def)

lemma settles_assign [settle]: "settles (assign x)"
  by (simp add: assign_def settles_modify)

lemma settles_emit [settle]: "settles (emit env ev)"
  by (simp add: settles_def emit_def Let_def split: option.splits)

lemma settles_bind [settle]: "settles m \<Longrightarrow> (\<And>v. settles (f v)) \<Longrightarrow> settles (bind m f)"
  by (auto simp: settles_def bind_def split: prod.splits outcome.splits)
    (metis fst_conv)+

lemma settles_tryCatch [settle]:
  "settles m \<Longrightarrow> (\<And>e. settles (h e)) \<Longrightarrow> settles (tryCatch m h)"
  by (auto simp: settles_def tryCatch_def split: prod.splits outcome.splits)
    (metis fst_conv)+

lemma settles_block_Nil [settle]: "settles (block [])"
  by (simp add: settles_ret)

lemma settles_block_Cons [settle]: "settles m \<Longrightarrow> settles (block ms) \<Longrightarrow> settles (block (m # ms))"
  by (simp add: settles_bind)

lemma settles_reading [settle]: "(\<And>x. settles (f x)) \<Longrightarrow> settles (reading f)"
  by (simp add: settles_def reading_def)

lemma settles_if [settle]: "settles a \<Longrightarrow> settles b \<Longrightarrow> settles (if c then a else b)"
  by simp

lemma settles_case_prod [settle]:
  "(\<And>a b. settles (f a b)) \<Longrightarrow> settles (case p of (a, b) \<Rightarrow> f a b)"
  by (cases p) simp

lemma settles_case_option [settle]:
  "settles a \<Longrightarrow> (\<And>x. settles (f x)) \<Longrightarrow> settles (case x of None \<Rightarrow> a | Some y \<Rightarrow> f y)"
  by (cases x) simp_all

lemma settles_fetch [settle]: "settles (fetch env c)"
  by (simp add: settles_def fetch_def Let_def split: sum.splits)

lemma settles_json [settle]: "settles (json env r)"
  by (simp add: settles_def json_def Let_def split: sum.splits)

lemma settles_readText [settle]: "settles (readText env r)"
  by (simp add: settles_def readText_def Let_def split: sum.splits)

lemma settles_fsCall [settle]: "settles (fsCall env c)"
  by (simp add: settles_def fsCall_def Let_def split: option.splits)

lemma settles_sleep [settle]: "settles (sleep env ms)"
  by (simp add: settles_def sleep_def)

lemma settles_awaitExec [settle]: "settles (awaitExec env c)"
  by (simp add: settles_def awaitExec_def Let_def)

lemma quiet_calm: "quiet env \<Longrightarrow> calm env"
  by (simp add: quiet_def calm_def)

lemma emit_calm:
  "calm env \<Longrightarrow> \<not> isErrorEvent ev \<Longrightarrow>
   emit env ev s = (Normal (), s\<lparr>events := events s @ [ev]\<rparr>)"
  by (simp add: emit_def calm_def)

lemma settles_inCallback_emit:
  "calm env \<Longrightarrow> \<not> isErrorEvent ev \<Longrightarrow> settles (inCallback (emit env ev))"
  by (simp add: settles_def inCallback_def emit_calm)

lemma settles_downloadFile: "settles (downloadFile env u)"
  unfolding downloadFile_def Let_def by (intro settle)

lemma settles_downloadFiles: "settles (downloadFiles env us)"
  by (induction us) (simp_all add: settles_ret settles_bind settles_downloadFile)

lemma settles_execCommand: "calm env \<Longrightarrow> settles (execCommand env cmd cwd)"
  unfolding execCommand_def by (intro settle settles_inCallback_emit) simp_all

lemma settlesD: "settles m \<Longrightarrow> m s \<noteq> (Uncaught e, s')"
  by (metis fst_conv settles_def)

lemma settles_deployBots: "calm env \<Longrightarrow> settles (deployBots env)"
  unfolding deployBots_def setError_def
  by (intro settle settles_downloadFiles settles_execCommand)

lemmas event_kinds = plainEvent_def notTimeout_def beforeDeploy_def

lemma plain_downloadFile: "preserves (grown plainEvent s0) (downloadFile env u)"
  unfolding downloadFile_def Let_def
  by (intro pres) (simp_all add: grown_ghostStable grown_emit event_kinds)

lemma plain_downloadFiles: "preserves (grown plainEvent s0) (downloadFiles env us)"
  by (intro preserves_downloadFiles plain_downloadFile)

lemma notTimeout_downloadFile: "preserves (grown notTimeout s0) (downloadFile env u)"
  unfolding downloadFile_def Let_def
  by (intro pres) (simp_all add: grown_ghostStable grown_emit event_kinds)

lemma plain_execCommand: "preserves (grown plainEvent s0) (execCommand env cmd cwd)"
  unfolding execCommand_def
  by (intro pres) (simp_all add: grown_ghostStable grown_emit event_kinds)

lemma notTimeout_deployBots: "preserves (grown notTimeout s0) (deployBots env)"
  unfolding deployBots_def setError_def execCommand_def
  by (intro pres notTimeout_downloadFile)
    (simp_all add: grown_ghostStable grown_emit event_kinds)

text \<open>The suspensions that the steps of a deployment take.\<close>

lemma stop_tick: "tick (snd (stop env s)) = tick s"
  by (simp add: stop_def bind_def modify_def assign_def reading_def emit_def ret_def Let_def
      split: option.splits)

lemma suspend_tick [simp]: "tick (suspend env s) = Suc (tick s)"
  by (simp add: suspend_def Let_def stop_tick)

text \<open>The outcome of the steps of a deployment, whatever the owner does meanwhile.\<close>

lemma downloadFile_outcome:
  assumes "calm env"
  shows "fst (downloadFile env u s) =
           (case artifactError env (deployPath (config s)) u (tick s) of
              None \<Rightarrow> Normal () | Some e \<Rightarrow> Throws e) \<and>
         (artifactError env (deployPath (config s)) u (tick s) = None \<longrightarrow>
            tick (snd (downloadFile env u s)) = tick s + 3) \<and>
         config (snd (downloadFile env u s)) = config s"
  using assms
  by (simp add: downloadFile_def bind_def reading_def emit_calm fetch_def readText_def
      fsCall_def throw_def ret_def Let_def artifactError_def artifactRequest_def
      split: sum.splits option.splits)

lemma downloadFiles_outcome:
  assumes "calm env"
  shows "fst (downloadFiles env us s) =
           (case firstArtifactError env (deployPath (config s)) us (tick s) of
              None \<Rightarrow> Normal () | Some e \<Rightarrow> Throws e) \<and>
         (firstArtifactError env (deployPath (config s)) us (tick s) = None \<longrightarrow>
            tick (snd (downloadFiles env us s)) = tick s + 3 * length us) \<and>
         config (snd (downloadFiles env us s)) = config s"
proof (induction us arbitrary: s)
  case Nil
  show ?case
    by (simp add: ret_def)
next
  case (Cons u us)
  obtain r s1 where one: "downloadFile env u s = (r, s1)"
    by (cases "downloadFile env u s")
  from downloadFile_outcome [OF assms, of u s] one
  have r: "r = (case artifactError env (deployPath (config s)) u (tick s) of
              None \<Rightarrow> Normal () | Some e \<Rightarrow> Throws e)"
    and t: "artifactError env (deployPath (config s)) u (tick s) = None \<longrightarrow>
            tick s1 = tick s + 3"
    and c: "config s1 = config s"
    by simp_all
  show ?case
  proof (cases "artifactError env (deployPath (config s)) u (tick s)")
    case (Some e)
    with one r c show ?thesis
      by (simp add: bind_def)
  next
    case None
    with one r t c Cons.IH [of s1] show ?thesis
      by (simp add: bind_def)
  qed
qed

lemma execCommand_outcome:
  assumes "calm env"
  shows "fst (execCommand env cmd cwd s) =
           (case fst (exec_reply env (tick s) (Exec cmd cwd)) of
              None \<Rightarrow> Normal () | Some e \<Rightarrow> Throws e)"
  using assms
  by (simp add: execCommand_def bind_def emit_calm awaitExec_def inCallback_def throw_def
      Let_def split: prod.splits option.splits)

text \<open>The statements of \<^verbatim>\<open>deployBots\<close> before its last notification.\<close>

lemma plain_deploy_steps:
  "preserves (grown plainEvent s0)
     (block [
        emit env EvDeployStart,
        reading (\<lambda>s. fsCall env (Mkdir (deployPath (config s)))),
        reading (\<lambda>s. downloadFiles env (botsFilesUrls (config s))),
        emit env EvDeployFilesWritten,
        reading (\<lambda>s. execCommand env (botsExecCommand (config s)) (deployPath (config s)))])"
  by (intro preserves_block_Cons preserves_block_Nil preserves_reading preserves_emit
      preserves_fsCall plain_downloadFiles plain_execCommand)
    (simp_all add: grown_ghostStable grown_emit event_kinds)

lemma deploy_steps_outcome:
  assumes "calm env"
  shows "fst (block [
        emit env EvDeployStart,
        reading (\<lambda>s. fsCall env (Mkdir (deployPath (config s)))),
        reading (\<lambda>s. downloadFiles env (botsFilesUrls (config s))),
        emit env EvDeployFilesWritten,
        reading (\<lambda>s. execCommand env (botsExecCommand (config s)) (deployPath (config s)))] s) =
      (case deployError env s of None \<Rightarrow> Normal () | Some e \<Rightarrow> Throws e)"
proof (cases "fs_reply env (tick s) (Mkdir (deployPath (config s)))")
  case (Some e)
  with assms show ?thesis
    by (simp add: bind_def reading_def emit_calm fsCall_def deployError_def Let_def)
next
  case None
  let ?s2 = "suspend env (s\<lparr>events := events s @ [EvDeployStart],
                calls := calls s @ [Mkdir (deployPath (config s))]\<rparr>)"
  obtain r s3 where dl: "downloadFiles env (botsFilesUrls (config s)) ?s2 = (r, s3)"
    by (cases "downloadFiles env (botsFilesUrls (config s)) ?s2")
  from downloadFiles_outcome [OF assms, of "botsFilesUrls (config s)" ?s2] dl
  have r: "r = (case firstArtifactError env (deployPath (config s)) (botsFilesUrls (config s))
                       (tick s + 1) of
              None \<Rightarrow> Normal () | Some e \<Rightarrow> Throws e)"
    and t: "firstArtifactError env (deployPath (config s)) (botsFilesUrls (config s))
              (tick s + 1) = None \<longrightarrow>
            tick s3 = tick s + 1 + 3 * length (botsFilesUrls (config s))"
    and c: "config s3 = config s"
    by simp_all
  show ?thesis
  proof (cases "firstArtifactError env (deployPath (config s)) (botsFilesUrls (config s))
                  (tick s + 1)")
    case (Some e)
    with None dl r assms show ?thesis
      by (simp add: bind_def reading_def emit_calm fsCall_def deployError_def Let_def)
  next
    case noFailure: None
    let ?s4 = "s3\<lparr>events := events s3 @ [EvDeployFilesWritten]\<rparr>"
    obtain r5 s5
      where ex: "execCommand env (botsExecCommand (config s)) (deployPath (config s)) ?s4 =
                   (r5, s5)"
      by (cases "execCommand env (botsExecCommand (config s)) (deployPath (config s)) ?s4")
    from execCommand_outcome [OF assms, of "botsExecCommand (config s)"
        "deployPath (config s)" ?s4] ex t noFailure
    have r5: "r5 = (case fst (exec_reply env (tick s + 1 + 3 * length (botsFilesUrls (config s)))
                          (Exec (botsExecCommand (config s)) (deployPath (config s)))) of
                None \<Rightarrow> Normal () | Some e \<Rightarrow> Throws e)"
      by simp
    from None dl r c assms noFailure ex r5 show ?thesis
      by (simp add: bind_def reading_def emit_calm fsCall_def deployError_def Let_def ret_def
          split: option.splits)
  qed
qed

lemma block_snoc: "block (ms @ [m]) = bind (block ms) (\<lambda>_. m)"
proof (induction ms)
  case Nil
  show ?case
    by (rule ext) (simp add: bind_def ret_def split: prod.splits outcome.splits)
next
  case (Cons a ms)
  then show ?case
    by (simp add: bind_def fun_eq_iff split: prod.splits outcome.splits)
qed

text \<open>
  A deployment: its steps emit neither \<^verbatim>\<open>error\<close> nor \<^verbatim>\<open>deploySuccess\<close>; when none of
  them fails \<^verbatim>\<open>deploySuccess\<close> follows, and when one fails the handler runs.
\<close>

lemma deployBots_outcome:
  assumes "calm env"
  shows "\<exists>s1 new. events s1 = events s @ new \<and> list_all plainEvent new \<and>
           deployBots env s =
             (case deployError env s of
                None \<Rightarrow> (Normal (), s1\<lparr>events := events s1 @ [EvDeploySuccess]\<rparr>)
              | Some e \<Rightarrow> setError env e s1)"
proof -
  let ?steps = "[
        emit env EvDeployStart,
        reading (\<lambda>s. fsCall env (Mkdir (deployPath (config s)))),
        reading (\<lambda>s. downloadFiles env (botsFilesUrls (config s))),
        emit env EvDeployFilesWritten,
        reading (\<lambda>s. execCommand env (botsExecCommand (config s)) (deployPath (config s)))]"
  have shape: "deployBots env =
      tryCatch (bind (block ?steps) (\<lambda>_. emit env EvDeploySuccess)) (\<lambda>error. setError env error)"
    unfolding deployBots_def block_snoc [symmetric] by simp
  obtain r s1 where steps: "block ?steps s = (r, s1)"
    by (cases "block ?steps s")
  from preservesD [OF plain_deploy_steps grown_refl, of s env] steps
  obtain new where new: "events s1 = events s @ new" "list_all plainEvent new"
    by (auto simp: grown_def)
  from deploy_steps_outcome [OF assms, of s] steps
  have r: "r = (case deployError env s of None \<Rightarrow> Normal () | Some e \<Rightarrow> Throws e)"
    by simp
  have "deployBots env s =
             (case deployError env s of
                None \<Rightarrow> (Normal (), s1\<lparr>events := events s1 @ [EvDeploySuccess]\<rparr>)
              | Some e \<Rightarrow> setError env e s1)"
    using steps r assms
    by (simp add: shape tryCatch_def bind_def emit_calm split: option.splits)
  with new show ?thesis
    by blast
qed

lemma setError_calm:
  assumes "calm env"
  shows "setError env e s =
     ((case listener env (EvError e) of None \<Rightarrow> Normal () | Some e' \<Rightarrow> Throws e'),
      s\<lparr>state := Error, writes := writes s @ [(length (events s), Error)],
        events := events s @ [EvStateChange Error, EvError e]\<rparr>)"
proof -
  from assms have "listener env (EvStateChange Error) = None"
    by (simp add: calm_def)
  then show ?thesis
    by (simp add: setError_def bind_def modify_def assign_def reading_def emit_def ret_def
        Let_def split: option.splits)
qed

lemma deployBots_returns:
  assumes "quiet env"
  shows "\<exists>s'. deployBots env s = (Normal (), s')"
proof -
  from deployBots_outcome [OF quiet_calm [OF assms], of s] assms show ?thesis
    by (auto simp: setError_quiet split: option.splits)
qed

lemma tripleD_Throws: "triple P m N E \<Longrightarrow> P s \<Longrightarrow> m s = (Throws e, s') \<Longrightarrow> E s'"
  by (fastforce simp: triple_def)

text \<open>The statements of the signal poll once the deployment is approved.\<close>

lemma approved_steps:
  assumes "quiet env"
  shows "triple (grown beforeDeploy s0)
           (block [emit env EvDeploySignalReceived, deployBots env])
           (\<lambda>_. grown notTimeout s0) (grown beforeDeploy s0)"
proof -
  have "\<exists>s'. block [emit env EvDeploySignalReceived, deployBots env] s = (Normal (), s') \<and>
          grown notTimeout s0 s'" if "grown beforeDeploy s0 s" for s
  proof -
    let ?s1 = "s\<lparr>events := events s @ [EvDeploySignalReceived]\<rparr>"
    from that have "grown notTimeout s0 s"
      by (rule grown_mono [rotated]) (simp add: event_kinds)
    then have "grown notTimeout s0 ?s1"
      by (intro grown_emit) (simp_all add: event_kinds)
    from preservesD [OF notTimeout_deployBots this, of env]
    have after: "grown notTimeout s0 (snd (deployBots env ?s1))" .
    from deployBots_returns [OF assms, of ?s1]
    obtain s' where "deployBots env ?s1 = (Normal (), s')"
      by blast
    with after assms show ?thesis
      by (simp add: bind_def emit_quiet ret_def)
  qed
  then show ?thesis
    by (fastforce simp: triple_def)
qed

lemma signalPoll_quiet:
  assumes "quiet env" and "grown beforeDeploy s0 s"
  shows "\<exists>c s1. signalPoll env s = (Normal c, s1) \<and>
           ((c = Return \<and> grown notTimeout s0 s1) \<or>
            (c = Continue \<and> grown beforeDeploy s0 s1))"
proof -
  define attempt where "attempt =
    bind (reading (\<lambda>s. fetch env
            (Fetch ''GET'' (teraboxBaseUrl (options s) @ ''/sync/deploySignal'')
               [(''Content-Type'', ''application/json'')] None))) (\<lambda>signalResponse.
      if ok signalResponse then
        bind (json env signalResponse) (\<lambda>body.
          if truthy body \<and> getProp body ''deploy'' = Some (JBool True) then
            bind (block [emit env EvDeploySignalReceived, deployBots env])
              (\<lambda>_. ret Return)
          else ret Continue)
      else ret Continue)"
  define after where "after =
    (\<lambda>c. if c = Return then ret Return
         else bind (reading (\<lambda>s. sleep env (retryIntervalMs (config s))))
                (\<lambda>_. ret Continue))"
  let ?N = "\<lambda>c s1. (c = Return \<and> grown notTimeout s0 s1) \<or>
                     (c = Continue \<and> grown beforeDeploy s0 s1)"
  have shape: "signalPoll env =
      bind (tryCatch attempt (\<lambda>error. bind (emit env (EvError error)) (\<lambda>_. ret Continue)))
        after"
    by (simp add: signalPoll_def attempt_def after_def)
  have ghost: "ghostStable env (grown beforeDeploy s0)"
    by (intro grown_ghostStable) (simp add: event_kinds)
  have settles: "settles attempt"
    unfolding attempt_def by (intro settle settles_deployBots quiet_calm assms(1))
  have spec: "triple (grown beforeDeploy s0) attempt ?N (grown beforeDeploy s0)"
    unfolding attempt_def
    apply (rule triple_bind [where R = "\<lambda>_. grown beforeDeploy s0"])
     apply (rule triple_pres)
       apply (intro preserves_reading preserves_fetch ghost)
      apply simp
     apply simp
    apply (rule triple_if)
     apply (rule triple_bind [where R = "\<lambda>_. grown beforeDeploy s0"])
      apply (rule triple_pres)
        apply (intro preserves_json ghost)
       apply simp
      apply simp
     apply (rule triple_if)
      apply (rule triple_bind [where R = "\<lambda>_. grown notTimeout s0"])
       apply (rule approved_steps [OF assms(1)])
      apply (rule triple_ret)
      apply simp
     apply (rule triple_ret)
     apply simp
    apply (rule triple_ret)
    apply simp
    done
  have tail: "\<exists>s2. after c s1 = (Normal c, s2) \<and> ?N c s2" if "?N c s1" for c s1
  proof (cases "c = Return")
    case True
    with that show ?thesis
      by (simp add: after_def ret_def)
  next
    case False
    with that have g: "grown beforeDeploy s0 s1" and c: "c = Continue"
      by auto
    from preservesD [OF preserves_sleep [OF ghost] g]
    have "grown beforeDeploy s0 (snd (sleep env (retryIntervalMs (config s1)) s1))" .
    with c show ?thesis
      by (simp add: after_def bind_def reading_def ret_def sleep_def)
  qed
  obtain r s1 where run: "attempt s = (r, s1)"
    by (cases "attempt s")
  show ?thesis
  proof (cases r)
    case (Normal c)
    from tripleD [OF spec assms(2)] run Normal have "?N c s1"
      by simp
    from tail [OF this] run Normal show ?thesis
      by (auto simp add: shape bind_def tryCatch_def)
  next
    case (Throws e)
    from tripleD_Throws [OF spec assms(2)] run Throws have "grown beforeDeploy s0 s1"
      by simp
    then have "grown beforeDeploy s0 (s1\<lparr>events := events s1 @ [EvError e]\<rparr>)"
      by (intro grown_emit) (simp_all add: event_kinds)
    then have "?N Continue (s1\<lparr>events := events s1 @ [EvError e]\<rparr>)"
      by simp
    from tail [OF this] run Throws assms(1) show ?thesis
      by (auto simp add: shape bind_def tryCatch_def emit_quiet ret_def)
  next
    case (Uncaught e)
    with run settlesD [OF settles] show ?thesis
      by blast
  qed
qed

lemma deployOrTimeout_notTimeout: "grown notTimeout s0 s \<Longrightarrow> deployOrTimeout s0 s"
  by (auto simp: grown_def deployOrTimeout_def list_all_iff notTimeout_def)

lemma deployOrTimeout_exit:
  assumes "quiet env" and "grown beforeDeploy s0 s"
  shows "\<exists>s'. block [emit env EvDeploySignalTimeout, setError env (JsError timeoutMessage)] s =
           (Normal (), s') \<and> deployOrTimeout s0 s'"
proof -
  from assms(2) obtain new where "events s = events s0 @ new" "list_all beforeDeploy new"
    by (auto simp: grown_def)
  then have "deployOrTimeout s0
      (s\<lparr>events := events s @ [EvDeploySignalTimeout], state := Error,
         writes := writes s @ [(Suc (length (events s)), Error)],
         events := (events s @ [EvDeploySignalTimeout]) @
           [EvStateChange Error, EvError (JsError timeoutMessage)]\<rparr>)"
    unfolding deployOrTimeout_def
    by (intro exI [of _ "new @ [EvDeploySignalTimeout, EvStateChange Error,
          EvError (JsError timeoutMessage)]"])
      (auto simp: list_all_iff beforeDeploy_def)
  with assms(1) show ?thesis
    by (simp add: bind_def emit_quiet setError_quiet ret_def)
qed

lemma waitForDeploySignal_loop_quiet:
  "quiet env \<Longrightarrow> grown beforeDeploy s0 s \<Longrightarrow>
   \<exists>s'. waitForDeploySignal_loop env polls s = (Normal (), s') \<and> deployOrTimeout s0 s'"
proof (induction env polls s rule: waitForDeploySignal_loop.induct)
  case (1 env polls s)
  note quiet = "1.prems"(1) and g = "1.prems"(2)
  show ?case
  proof (cases "\<not> isStopped s \<and> polls < maxPolls")
    case False
    with deployOrTimeout_exit [OF quiet g] show ?thesis
      by (simp add: waitForDeploySignal_loop_exit del: block.simps)
  next
    case True
    from signalPoll_quiet [OF quiet g]
    obtain c s1 where poll: "signalPoll env s = (Normal c, s1)"
      and post: "(c = Return \<and> grown notTimeout s0 s1) \<or>
                 (c = Continue \<and> grown beforeDeploy s0 s1)"
      by blast
    from post show ?thesis
    proof
      assume "c = Return \<and> grown notTimeout s0 s1"
      with True poll show ?thesis
        by (simp add: waitForDeploySignal_loop_step deployOrTimeout_notTimeout)
    next
      assume c: "c = Continue \<and> grown beforeDeploy s0 s1"
      with "1.IH" [OF True poll [symmetric] _ _ quiet] have
        "\<exists>s'. waitForDeploySignal_loop env (polls + 1) s1 = (Normal (), s') \<and>
              deployOrTimeout s0 s'"
        by simp
      with True poll c show ?thesis
        by (simp add: waitForDeploySignal_loop_step)
    qed
  qed
qed

lemma waitForDeploySignal_quiet:
  assumes "quiet env"
  shows "\<exists>s'. waitForDeploySignal env s = (Normal (), s') \<and> deployOrTimeout s s'"
proof -
  let ?s1 = "s\<lparr>events := events s @ [EvWaitingDeploySignal], state := Deploying,
               writes := writes s @ [(Suc (length (events s)), Deploying)],
               events := (events s @ [EvWaitingDeploySignal]) @ [EvStateChange Deploying]\<rparr>"
  have "grown beforeDeploy s ?s1"
    unfolding grown_def
    by (intro exI [of _ "[EvWaitingDeploySignal, EvStateChange Deploying]"])
      (simp add: beforeDeploy_def)
  from waitForDeploySignal_loop_quiet [OF assms this, of 0] assms show ?thesis
    by (auto simp add: waitForDeploySignal_def bind_def modify_def assign_def reading_def
        emit_quiet ret_def)
qed

text \<open>
  C10, as the code has it. When the listeners of the notifications other than
  \<^verbatim>\<open>error\<close> return (whatever the owner does meanwhile):
  \<^item> if no step of the deployment fails, \<^verbatim>\<open>deployBots\<close> returns normally, its last
    notification is \<^verbatim>\<open>deploySuccess\<close> and it emits no \<^verbatim>\<open>error\<close>;
  \<^item> every failure of a step (the creation of the directory, the download of an
    artifact, the writing of its file, the launch of the process) is absorbed by the
    handler: the state is error, exactly one \<^verbatim>\<open>error\<close> notification is emitted, it
    carries the failure and is the last notification, and \<^verbatim>\<open>deploySuccess\<close> is not
    emitted. \<^verbatim>\<open>deployBots\<close> then returns normally if the listener of that \<^verbatim>\<open>error\<close>
    notification returns; if it throws, which is what the emitter does when no
    listener of \<^verbatim>\<open>error\<close> is registered, that exception leaves \<^verbatim>\<open>deployBots\<close>;
  \<^item> when no listener throws, \<^verbatim>\<open>deployBots\<close> and the signal wait return normally, and
    the signal wait never emits both \<^verbatim>\<open>deployStart\<close> and \<^verbatim>\<open>deploySignalTimeout\<close>: once
    a deployment has started there is no time-out.
\<close>

theorem deploy_failures_are_absorbed:
  assumes "calm env"
  shows "(deployError env s = None \<longrightarrow>
            fst (deployBots env s) = Normal () \<and>
            last (newEvents s (snd (deployBots env s))) = EvDeploySuccess \<and>
            filter isErrorEvent (newEvents s (snd (deployBots env s))) = []) \<and>
         (\<forall>e. deployError env s = Some e \<longrightarrow>
            fst (deployBots env s) =
              (case listener env (EvError e) of None \<Rightarrow> Normal () | Some e' \<Rightarrow> Throws e') \<and>
            state (snd (deployBots env s)) = Error \<and>
            filter isErrorEvent (newEvents s (snd (deployBots env s))) = [EvError e] \<and>
            last (newEvents s (snd (deployBots env s))) = EvError e \<and>
            EvDeploySuccess \<notin> set (newEvents s (snd (deployBots env s)))) \<and>
         (quiet env \<longrightarrow>
            fst (deployBots env s) = Normal () \<and>
            fst (waitForDeploySignal env s) = Normal () \<and>
            \<not> (EvDeployStart \<in> set (newEvents s (snd (waitForDeploySignal env s))) \<and>
               EvDeploySignalTimeout \<in> set (newEvents s (snd (waitForDeploySignal env s)))))"
proof (intro conjI impI allI)
  from deployBots_outcome [OF assms, of s]
  obtain s1 new where new: "events s1 = events s @ new" and plain: "list_all plainEvent new"
    and run: "deployBots env s =
             (case deployError env s of
                None \<Rightarrow> (Normal (), s1\<lparr>events := events s1 @ [EvDeploySuccess]\<rparr>)
              | Some e \<Rightarrow> setError env e s1)"
    by blast
  from plain have noErr: "filter isErrorEvent new = []"
    and noSuccess: "EvDeploySuccess \<notin> set new"
    by (auto simp: list_all_iff plainEvent_def filter_empty_conv)
  {
    assume "deployError env s = None"
    with run new noErr show "fst (deployBots env s) = Normal ()"
      and "last (newEvents s (snd (deployBots env s))) = EvDeploySuccess"
      and "filter isErrorEvent (newEvents s (snd (deployBots env s))) = []"
      by (simp_all add: newEvents_def)
  }
  {
    fix e
    assume "deployError env s = Some e"
    with run new noErr noSuccess setError_calm [OF assms, of e s1]
    show "fst (deployBots env s) =
              (case listener env (EvError e) of None \<Rightarrow> Normal () | Some e' \<Rightarrow> Throws e')"
      and "state (snd (deployBots env s)) = Error"
      and "filter isErrorEvent (newEvents s (snd (deployBots env s))) = [EvError e]"
      and "last (newEvents s (snd (deployBots env s))) = EvError e"
      and "EvDeploySuccess \<notin> set (newEvents s (snd (deployBots env s)))"
      by (simp_all add: newEvents_def)
  }
  {
    assume q: "quiet env"
    from deployBots_returns [OF q, of s] show "fst (deployBots env s) = Normal ()"
      by auto
    from waitForDeploySignal_quiet [OF q, of s]
    obtain s'' where wait: "waitForDeploySignal env s = (Normal (), s'')"
      and dt: "deployOrTimeout s s''"
      by blast
    from wait show "fst (waitForDeploySignal env s) = Normal ()"
      by simp
    from dt wait
    show "\<not> (EvDeployStart \<in> set (newEvents s (snd (waitForDeploySignal env s))) \<and>
            EvDeploySignalTimeout \<in> set (newEvents s (snd (waitForDeploySignal env s))))"
      by (auto simp: deployOrTimeout_def newEvents_def)
  }
qed

theorem deploy_failures_are_absorbed_witness:
  "calm fullHostEnv \<and> deployError fullHostEnv (newSyncManager artifactOptions) = None \<and>
   fst (deployBots fullHostEnv (newSyncManager artifactOptions)) = Normal () \<and>
   last (newEvents (newSyncManager artifactOptions)
     (snd (deployBots fullHostEnv (newSyncManager artifactOptions)))) = EvDeploySuccess \<and>
   calm approvedBrokenDiskEnv \<and>
   deployError approvedBrokenDiskEnv (newSyncManager bareOptions) = Some (JsError ''EACCES'') \<and>
   listener approvedBrokenDiskEnv (EvError (JsError ''EACCES'')) = None \<and>
   fst (deployBots approvedBrokenDiskEnv (newSyncManager bareOptions)) = Normal () \<and>
   state (snd (deployBots approvedBrokenDiskEnv (newSyncManager bareOptions))) = Error \<and>
   filter isErrorEvent (newEvents (newSyncManager bareOptions)
     (snd (deployBots approvedBrokenDiskEnv (newSyncManager bareOptions)))) =
     [EvError (JsError ''EACCES'')] \<and>
   calm failedLaunchEnv \<and>
   deployError failedLaunchEnv (newSyncManager artifactOptions) = Some (JsError ''ENOENT'') \<and>
   listener failedLaunchEnv (EvError (JsError ''ENOENT'')) = None \<and>
   fst (deployBots failedLaunchEnv (newSyncManager artifactOptions)) = Normal () \<and>
   state (snd (deployBots failedLaunchEnv (newSyncManager artifactOptions))) = Error \<and>
   filter isErrorEvent (newEvents (newSyncManager artifactOptions)
     (snd (deployBots failedLaunchEnv (newSyncManager artifactOptions)))) =
     [EvError (JsError ''ENOENT'')] \<and>
   EvDeploySuccess \<notin> set (newEvents (newSyncManager artifactOptions)
     (snd (deployBots failedLaunchEnv (newSyncManager artifactOptions)))) \<and>
   calm handlerEnv \<and>
   deployError handlerEnv (newSyncManager bareOptions) = Some (JsError ''EACCES'') \<and>
   listener handlerEnv (EvError (JsError ''EACCES'')) = Some (JsError ''EACCES'') \<and>
   fst (deployBots handlerEnv (newSyncManager bareOptions)) = Throws (JsError ''EACCES'') \<and>
   state (snd (deployBots handlerEnv (newSyncManager bareOptions))) = Error \<and>
   quiet approvedBrokenDiskEnv \<and>
   fst (waitForDeploySignal approvedBrokenDiskEnv (newSyncManager bareOptions)) = Normal () \<and>
   newEvents (newSyncManager bareOptions)
     (snd (waitForDeploySignal approvedBrokenDiskEnv (newSyncManager bareOptions))) =
     [EvWaitingDeploySignal, EvStateChange Deploying, EvDeploySignalReceived,
      EvDeployStart, EvStateChange Error, EvError (JsError ''EACCES'')]"
proof -
  let ?a = "newSyncManager artifactOptions"
  let ?b = "newSyncManager bareOptions"
  have cfg: "botsFilesUrls (config ?a) = [''https://host/bots/bot.js'', ''https://host/bots/lib.js'']"
    "deployPath (config ?a) = ''./deployedBots''" "botsExecCommand (config ?a) = ''node bot.js''"
    "tick ?a = 0" "botsFilesUrls (config ?b) = []" "deployPath (config ?b) = ''./deployedBots''"
    "tick ?b = 0"
    by (simp_all add: newSyncManager_def spread_def defaultConfig_def Let_def bareOptions_def
        artifactOptions_def)
  have calm: "calm fullHostEnv" "calm approvedBrokenDiskEnv" "calm failedLaunchEnv"
    "calm handlerEnv"
    and q: "quiet approvedBrokenDiskEnv"
    by (simp_all add: calm_def quiet_def fixture_defs fullHostEnv_def failedLaunchEnv_def
        handlerEnv_def handlerListeners_def split: event.splits)
  have errs: "deployError fullHostEnv ?a = None"
    "deployError approvedBrokenDiskEnv ?b = Some (JsError ''EACCES'')"
    "deployError failedLaunchEnv ?a = Some (JsError ''ENOENT'')"
    "deployError handlerEnv ?b = Some (JsError ''EACCES'')"
    by (simp_all add: deployError_def artifactError_def cfg Let_def fixture_defs
        fullHostEnv_def failedLaunchEnv_def handlerEnv_def scriptResponse_def)
  have ls: "listener approvedBrokenDiskEnv (EvError (JsError ''EACCES'')) = None"
    "listener failedLaunchEnv (EvError (JsError ''ENOENT'')) = None"
    "listener handlerEnv (EvError (JsError ''EACCES'')) = Some (JsError ''EACCES'')"
    by (simp_all add: fixture_defs fullHostEnv_def failedLaunchEnv_def handlerEnv_def
        handlerListeners_def)
  have w: "newEvents ?b (snd (waitForDeploySignal approvedBrokenDiskEnv ?b)) =
     [EvWaitingDeploySignal, EvStateChange Deploying, EvDeploySignalReceived,
      EvDeployStart, EvStateChange Error, EvError (JsError ''EACCES'')]"
    by (simp add: newEvents_def run_defs fixture_defs waitForDeploySignal_loop.simps
        maxPolls_def)
  from deploy_failures_are_absorbed [OF calm(1), of ?a]
    deploy_failures_are_absorbed [OF calm(2), of ?b]
    deploy_failures_are_absorbed [OF calm(3), of ?a]
    deploy_failures_are_absorbed [OF calm(4), of ?b]
    calm q errs ls w
  show ?thesis
    by simp
qed

text \<open>
  The claim as stated fails. The handler of the repository registers listeners of
  \<^verbatim>\<open>stateChange\<close>, \<^verbatim>\<open>connected\<close> and \<^verbatim>\<open>listening\<close> and none of \<^verbatim>\<open>error\<close>. When the
  directory cannot be created, the handler of \<^verbatim>\<open>deployBots\<close> makes the state error and
  emits \<^verbatim>\<open>error\<close>, the emitter throws the error, and the exception leaves
  \<^verbatim>\<open>deployBots\<close>; it then leaves the signal wait, the probe loop and \<^verbatim>\<open>start()\<close> as
  well, each handler on the way emitting \<^verbatim>\<open>error\<close> again.
\<close>

theorem deploy_failure_propagates:
  "fst (deployBots handlerEnv (newSyncManager bareOptions)) = Throws (JsError ''EACCES'') \<and>
   events (snd (deployBots handlerEnv (newSyncManager bareOptions))) =
     [EvDeployStart, EvStateChange Error, EvError (JsError ''EACCES'')] \<and>
   fst (start handlerEnv (newSyncManager bareOptions)) = Throws (JsError ''EACCES'') \<and>
   events (snd (start handlerEnv (newSyncManager bareOptions))) =
     [EvStateChange Searching, EvAttempt 1, EvGemeloFound ''other'',
      EvStateChange Connected, EvConnected, EvWaitingDeploySignal,
      EvStateChange Deploying, EvDeploySignalReceived, EvDeployStart,
      EvStateChange Error, EvError (JsError ''EACCES''), EvError (JsError ''EACCES''),
      EvStateChange Error, EvError (JsError ''EACCES''),
      EvStateChange Error, EvError (JsError ''EACCES'')]"
  by (simp add: run_defs attemptConnectionLoop.simps waitForDeploySignal_loop.simps
      fixture_defs handlerEnv_def handlerListeners_def signalRequest_def maxPolls_def
      isSyncData_def)

end
